theory Spec2Isabelle
  imports Main "HOL-Library.AList" "HOL-Library.Char_ord" "HOL-Library.List_Lexorder"
    "HOL-Library.Multiset"
begin

section \<open>The account database of \<open>wgtk.py\<close> (class \<open>PasswdGroupShadow\<close>)\<close>

text \<open>
  Python integers are unbounded, so every id is an \<open>int\<close>. Strings are \<open>string\<close>; their
  order (used by \<open>sorted\<close>) is the lexicographic order on character codes.
  A Python \<open>dict\<close> is an association list with distinct keys, in insertion order:
  \<open>d[k] = v\<close> is \<open>AList.update k v d\<close>, \<open>del d[k]\<close> is \<open>AList.delete k d\<close> (guarded by the
  \<open>KeyError\<close> test), \<open>k in d\<close> is \<open>k \<in> set (map fst d)\<close>, \<open>d.values()\<close> is \<open>map snd d\<close>.
  Every exception of the source is a value of \<open>error\<close>.
\<close>

subsection \<open>Exceptions\<close>

datatype error =
    PgsFormatError | PgsLockError | PgsAddUserError | PgsAddGroupError | PgsAddUserToGroupError
  | AssertionError | KeyError | AttributeError | ZeroDivisionError | OSError | ValueError

subsection \<open>Record classes\<close>

record PwdEntry =
  pw_name :: string
  pw_passwd :: string
  pw_uid :: int
  pw_gid :: int
  pw_gecos :: string
  pw_dir :: string
  pw_shell :: string

record GrpEntry =
  gr_name :: string
  gr_passwd :: string
  gr_gid :: int
  gr_mem :: string

record ShadowEntry =
  sh_name :: string
  sh_encpwd :: string

text \<open>Class \<open>_SubUidGidEntry\<close>, fields \<open>name\<close>, \<open>start\<close>, \<open>count\<close>.\<close>

record SubUidGidEntry =
  name :: string
  start :: int
  count :: int

subsection \<open>Constants of the module and of the class\<close>

definition MUSER_SET_PASSWORD :: int where "MUSER_SET_PASSWORD = 1"
definition MUSER_SET_SHELL :: int where "MUSER_SET_SHELL = 2"
definition MUSER_JOIN_GROUP :: int where "MUSER_JOIN_GROUP = 3"
definition MUSER_LEAVE_GROUP :: int where "MUSER_LEAVE_GROUP = 4"

definition stdSystemUserList :: "string list" where
  "stdSystemUserList = [''root'', ''nobody'']"

definition stdDeprecatedUserList :: "string list" where
  "stdDeprecatedUserList =
     [''bin'', ''daemon'', ''adm'', ''shutdown'', ''halt'', ''operator'', ''lp'']"

definition stdSystemGroupList :: "string list" where
  "stdSystemGroupList = [''root'', ''nobody'', ''nogroup'', ''wheel'', ''users'']"

definition stdDeviceGroupList :: "string list" where
  "stdDeviceGroupList =
     [''tty'', ''disk'', ''lp'', ''mem'', ''kmem'', ''floppy'', ''console'', ''audio'',
      ''cdrom'', ''tape'', ''video'', ''cdrw'', ''usb'', ''plugdev'', ''input'', ''kvm'']"

definition stdDeprecatedGroupList :: "string list" where
  "stdDeprecatedGroupList = [''bin'', ''daemon'', ''sys'', ''adm'']"

subsection \<open>The object state\<close>

text \<open>
  The attributes of a \<open>PasswdGroupShadow\<close> object that the in-memory operations read or
  write. The file names, the lock descriptor and the read-only flag are used only by the
  file input and output, which is not part of this development.
\<close>

record PasswdGroupShadow =
  valid :: bool
  uidMin :: int
  uidMax :: int
  gidMin :: int
  gidMax :: int
  subUidMin :: int
  subUidMax :: int
  subUidCount :: int
  subGidMin :: int
  subGidMax :: int
  subGidCount :: int
  systemUserList :: "string list"
  normalUserList :: "string list"
  softwareUserList :: "string list"
  deprecatedUserList :: "string list"
  pwdDict :: "(string \<times> PwdEntry) list"
  systemGroupList :: "string list"
  deviceGroupList :: "string list"
  perUserGroupList :: "string list"
  standAloneGroupList :: "string list"
  softwareGroupList :: "string list"
  deprecatedGroupList :: "string list"
  secondaryGroupsDict :: "(string \<times> string list) list"
  grpDict :: "(string \<times> GrpEntry) list"
  shadowEntryList :: "string list"
  shDict :: "(string \<times> ShadowEntry) list"
  subUidEntryList :: "string list"
  subUidDict :: "(string \<times> SubUidGidEntry) list"
  subGidEntryList :: "string list"
  subGidDict :: "(string \<times> SubUidGidEntry) list"

type_synonym pgs = PasswdGroupShadow

text \<open>
  A method call ends with the exception it raised, if any, and the state of the object at
  that moment (the source has no rollback, so updates made before a \<open>raise\<close> stay).
\<close>

type_synonym outcome = "error option \<times> pgs"

definition ok :: "pgs \<Rightarrow> outcome" where
  "ok s = (None, s)"

definition raise :: "error \<Rightarrow> pgs \<Rightarrow> outcome" where
  "raise e s = (Some e, s)"

text \<open>Sequencing of two statements: the second runs when the first raised nothing.\<close>

definition andThen :: "outcome \<Rightarrow> (pgs \<Rightarrow> outcome) \<Rightarrow> outcome" where
  "andThen r f = (case r of (None, s) \<Rightarrow> f s | (Some e, s) \<Rightarrow> (Some e, s))"

text \<open>A \<open>for\<close> loop whose body updates the object and may raise.\<close>

fun forEach :: "('a \<Rightarrow> pgs \<Rightarrow> outcome) \<Rightarrow> 'a list \<Rightarrow> pgs \<Rightarrow> outcome" where
  "forEach body [] s = ok s"
| "forEach body (x # xs) s = andThen (body x s) (forEach body xs)"

text \<open>A \<open>for\<close> loop of checks: the first exception raised, or \<open>None\<close>.\<close>

fun firstError :: "('a \<Rightarrow> error option) \<Rightarrow> 'a list \<Rightarrow> error option" where
  "firstError chk [] = None"
| "firstError chk (x # xs) = (case chk x of Some e \<Rightarrow> Some e | None \<Rightarrow> firstError chk xs)"

text \<open>Two checks in sequence.\<close>

definition orElse :: "error option \<Rightarrow> error option \<Rightarrow> error option" where
  "orElse a b = (case a of Some e \<Rightarrow> Some e | None \<Rightarrow> b)"

subsection \<open>Dictionaries and strings\<close>

definition has_key :: "('k \<times> 'v) list \<Rightarrow> 'k \<Rightarrow> bool" where
  "has_key d k = (k \<in> set (map fst d))"

text \<open>\<open>d.get(k, [])\<close>\<close>

definition get_or_empty :: "('k \<times> 'v list) list \<Rightarrow> 'k \<Rightarrow> 'v list" where
  "get_or_empty d k = (case map_of d k of None \<Rightarrow> [] | Some v \<Rightarrow> v)"

text \<open>\<open>s.split(d)\<close> with a one-character separator: never empty, \<open>"".split(",") = [""]\<close>.\<close>

fun split :: "char \<Rightarrow> string \<Rightarrow> string list" where
  "split d [] = [[]]"
| "split d (c # cs) =
     (if c = d then [] # split d cs
      else (case split d cs of [] \<Rightarrow> [[c]] | w # ws \<Rightarrow> (c # w) # ws))"

text \<open>\<open>d.join(xs)\<close>\<close>

fun join :: "string \<Rightarrow> string list \<Rightarrow> string" where
  "join d [] = []"
| "join d [x] = x"
| "join d (x # y # ys) = x @ d @ join d (y # ys)"

text \<open>\<open>[x for x in mem.split(",") if x != ""]\<close>, the member names of a group's member field.\<close>

definition ulist_of :: "string \<Rightarrow> string list" where
  "ulist_of mem = filter (\<lambda>x. x \<noteq> []) (split (CHR '','') mem)"

subsection \<open>Queries\<close>

text \<open>
  \<open>getSecondaryGroupsOfUser\<close>: two assertions, then
  \<open>sorted(self.secondaryGroupsDict.get(username, []))\<close>.
\<close>

definition getSecondaryGroupsOfUser :: "string \<Rightarrow> pgs \<Rightarrow> error + string list" where
  "getSecondaryGroupsOfUser username s =
     (if \<not> valid s then Inl AssertionError
      else if username \<notin> set (normalUserList s) then Inl AssertionError
      else Inr (sort (get_or_empty (secondaryGroupsDict s) username)))"

subsection \<open>Adding a normal user\<close>

text \<open>
  The \<open>while True\<close> loop of \<open>addNormalUser\<close>, started at \<open>newUid = 1000\<close>: \<open>None\<close> is the
  \<open>raise PgsAddUserError\<close>, \<open>Some\<close> the value at \<open>break\<close>. The lists are
  \<open>[v.pw_uid for v in self.pwdDict.values()]\<close> and \<open>[v.gr_gid for v in self.grpDict.values()]\<close>.
\<close>

function newUid_loop :: "int list \<Rightarrow> int list \<Rightarrow> int \<Rightarrow> int option" where
  "newUid_loop uids gids newUid =
     (if newUid \<ge> 10000 then None
      else if newUid \<in> set uids then newUid_loop uids gids (newUid + 1)
      else if newUid \<in> set gids then newUid_loop uids gids (newUid + 1)
      else Some newUid)"
  by pat_completeness auto
termination
  by (relation "measure (\<lambda>(uids, gids, newUid). nat (10000 - newUid))") auto

text \<open>
  \<open>m = rangeMin; for obj in d.values(): m = max(obj.start + obj.count, m)\<close>
\<close>

definition max_end :: "int \<Rightarrow> (string \<times> SubUidGidEntry) list \<Rightarrow> int" where
  "max_end rangeMin d = fold (\<lambda>obj m. max (start obj + count obj) m) (map snd d) rangeMin"

text \<open>
  The password hash \<open>hosts.linux_context.encrypt\<close> belongs to the library \<open>passlib\<close>; it is
  the parameter \<open>encrypt\<close>, which returns the hash (\<open>Inr\<close>) or the exception that the library
  raises for a secret it rejects (\<open>Inl\<close>). In \<open>addNormalUser\<close> the call stands in the
  statement that stores the shadow entry, after the user record, the normal-user list, the
  group record and the per-user group list are updated: an exception there leaves these
  four updated.
\<close>

definition addNormalUser ::
  "(string \<Rightarrow> error + string) \<Rightarrow> string \<Rightarrow> string \<Rightarrow> pgs \<Rightarrow> outcome" where
  "addNormalUser encrypt username password s =
     (if \<not> valid s then raise AssertionError s
      else if has_key (pwdDict s) username then raise AssertionError s
      else if has_key (grpDict s) username then raise AssertionError s
      else
        (case newUid_loop (map (pw_uid \<circ> snd) (pwdDict s)) (map (gr_gid \<circ> snd) (grpDict s)) 1000 of
           None \<Rightarrow> raise PgsAddUserError s
         | Some newUid \<Rightarrow>
            (let s1 = s\<lparr>pwdDict := AList.update username
                           \<lparr>pw_name = username, pw_passwd = ''x'', pw_uid = newUid,
                            pw_gid = newUid, pw_gecos = [], pw_dir = ''/home/'' @ username,
                            pw_shell = ''/bin/bash''\<rparr> (pwdDict s),
                         normalUserList := normalUserList s @ [username]\<rparr>;
                 s2 = s1\<lparr>grpDict := AList.update username
                           \<lparr>gr_name = username, gr_passwd = ''x'', gr_gid = newUid,
                            gr_mem = []\<rparr> (grpDict s1),
                          perUserGroupList := perUserGroupList s1 @ [username]\<rparr>
             in case encrypt password of
                  Inl e \<Rightarrow> raise e s2
                | Inr h \<Rightarrow>
                   (let s3 = s2\<lparr>shDict := AList.update username
                                 \<lparr>sh_name = username, sh_encpwd = h\<rparr> (shDict s2),
                                shadowEntryList := shadowEntryList s2 @ [username]\<rparr>;
                        s4 = s3\<lparr>subUidDict := AList.update username
                                 \<lparr>name = username, start = max_end (subUidMin s3) (subUidDict s3),
                                  count = subUidCount s3\<rparr> (subUidDict s3),
                                subUidEntryList := subUidEntryList s3 @ [username]\<rparr>;
                        s5 = s4\<lparr>subGidDict := AList.update username
                                 \<lparr>name = username, start = max_end (subGidMin s4) (subGidDict s4),
                                  count = subGidCount s4\<rparr> (subGidDict s4),
                                subGidEntryList := subGidEntryList s4 @ [username]\<rparr>
                    in ok s5))))"

subsection \<open>Removing a normal user\<close>

text \<open>
  \<open>if username in entryList: entryList.remove(username); del d[username]\<close>: the list is
  already updated when \<open>del\<close> raises \<open>KeyError\<close>. One definition for each block of
  \<open>removeNormalUser\<close>, in the order of the source.
\<close>

definition removeNormalUser_subgid :: "string \<Rightarrow> pgs \<Rightarrow> outcome" where
  "removeNormalUser_subgid username s =
     (if username \<in> set (subGidEntryList s) then
        (let s1 = s\<lparr>subGidEntryList := remove1 username (subGidEntryList s)\<rparr>
         in if has_key (subGidDict s1) username
            then ok (s1\<lparr>subGidDict := AList.delete username (subGidDict s1)\<rparr>)
            else raise KeyError s1)
      else ok s)"

definition removeNormalUser_subuid :: "string \<Rightarrow> pgs \<Rightarrow> outcome" where
  "removeNormalUser_subuid username s =
     (if username \<in> set (subUidEntryList s) then
        (let s1 = s\<lparr>subUidEntryList := remove1 username (subUidEntryList s)\<rparr>
         in if has_key (subUidDict s1) username
            then ok (s1\<lparr>subUidDict := AList.delete username (subUidDict s1)\<rparr>)
            else raise KeyError s1)
      else ok s)"

definition removeNormalUser_shadow :: "string \<Rightarrow> pgs \<Rightarrow> outcome" where
  "removeNormalUser_shadow username s =
     (if username \<in> set (shadowEntryList s) then
        (let s1 = s\<lparr>shadowEntryList := remove1 username (shadowEntryList s)\<rparr>
         in if has_key (shDict s1) username
            then ok (s1\<lparr>shDict := AList.delete username (shDict s1)\<rparr>)
            else raise KeyError s1)
      else ok s)"

text \<open>
  The body of \<open>for gname, entry in self.grpDict.items()\<close>, on one entry.
\<close>

definition scrub_member :: "string \<Rightarrow> GrpEntry \<Rightarrow> GrpEntry" where
  "scrub_member username entry =
     (let ulist = ulist_of (gr_mem entry)
      in if username \<in> set ulist
         then entry\<lparr>gr_mem := join '','' (remove1 username ulist)\<rparr>
         else entry)"

definition removeNormalUser_membership :: "string \<Rightarrow> pgs \<Rightarrow> outcome" where
  "removeNormalUser_membership username s =
     (let s1 = (if has_key (secondaryGroupsDict s) username
                then s\<lparr>secondaryGroupsDict := AList.delete username (secondaryGroupsDict s)\<rparr>
                else s)
      in ok (s1\<lparr>grpDict := map (\<lambda>(gname, entry). (gname, scrub_member username entry))
                              (grpDict s1)\<rparr>))"

definition removeNormalUser_group :: "string \<Rightarrow> pgs \<Rightarrow> outcome" where
  "removeNormalUser_group username s =
     (if username \<in> set (perUserGroupList s) then
        (let s1 = s\<lparr>perUserGroupList := remove1 username (perUserGroupList s)\<rparr>
         in if has_key (grpDict s1) username
            then ok (s1\<lparr>grpDict := AList.delete username (grpDict s1)\<rparr>)
            else raise KeyError s1)
      else ok s)"

definition removeNormalUser_user :: "string \<Rightarrow> pgs \<Rightarrow> outcome" where
  "removeNormalUser_user username s =
     (if username \<in> set (normalUserList s) then
        (let s1 = s\<lparr>normalUserList := remove1 username (normalUserList s)\<rparr>
         in if has_key (pwdDict s1) username
            then ok (s1\<lparr>pwdDict := AList.delete username (pwdDict s1)\<rparr>)
            else raise KeyError s1)
      else ok s)"

definition removeNormalUser :: "string \<Rightarrow> pgs \<Rightarrow> outcome" where
  "removeNormalUser username s =
     (if \<not> valid s then raise AssertionError s
      else
        andThen (removeNormalUser_subgid username s) (\<lambda>s.
        andThen (removeNormalUser_subuid username s) (\<lambda>s.
        andThen (removeNormalUser_shadow username s) (\<lambda>s.
        andThen (removeNormalUser_membership username s) (\<lambda>s.
        andThen (removeNormalUser_group username s) (\<lambda>s.
        removeNormalUser_user username s))))))"

subsection \<open>Modifying a normal user\<close>

text \<open>
  \<open>kargs\<close> is the tuple of the extra arguments. In the join and leave branches the
  secondary-group index is updated before \<open>self.grpDict[groupname]\<close> is looked up. In the
  password branch the right-hand side of the assignment (the hash) is evaluated before
  \<open>self.shDict[username]\<close>.
\<close>

definition joinable :: "pgs \<Rightarrow> string list" where
  "joinable s = systemGroupList s @ deviceGroupList s @ standAloneGroupList s @ softwareGroupList s"

definition modifyNormalUser_join :: "string \<Rightarrow> string \<Rightarrow> pgs \<Rightarrow> outcome" where
  "modifyNormalUser_join username groupname s =
     (if groupname \<notin> set (joinable s) then raise AssertionError s
      else
        (let s1 = (if \<not> has_key (secondaryGroupsDict s) username
                   then s\<lparr>secondaryGroupsDict := AList.update username [] (secondaryGroupsDict s)\<rparr>
                   else s);
             glist = get_or_empty (secondaryGroupsDict s1) username;
             s2 = (if groupname \<notin> set glist
                   then s1\<lparr>secondaryGroupsDict :=
                             AList.update username (glist @ [groupname]) (secondaryGroupsDict s1)\<rparr>
                   else s1)
         in case map_of (grpDict s2) groupname of
              None \<Rightarrow> raise KeyError s2
            | Some g \<Rightarrow>
               (let ulist = ulist_of (gr_mem g)
                in if username \<notin> set ulist
                   then ok (s2\<lparr>grpDict := AList.update groupname
                                (g\<lparr>gr_mem := join '','' (ulist @ [username])\<rparr>) (grpDict s2)\<rparr>)
                   else ok s2)))"

definition modifyNormalUser_leave :: "string \<Rightarrow> string \<Rightarrow> pgs \<Rightarrow> outcome" where
  "modifyNormalUser_leave username groupname s =
     (let s1 = (case map_of (secondaryGroupsDict s) username of
                  None \<Rightarrow> s
                | Some glist \<Rightarrow>
                    if groupname \<in> set glist
                    then s\<lparr>secondaryGroupsDict :=
                           AList.update username (remove1 groupname glist) (secondaryGroupsDict s)\<rparr>
                    else s)
      in case map_of (grpDict s1) groupname of
           None \<Rightarrow> raise KeyError s1
         | Some g \<Rightarrow>
            (let ulist = ulist_of (gr_mem g)
             in if username \<in> set ulist
                then ok (s1\<lparr>grpDict := AList.update groupname
                             (g\<lparr>gr_mem := join '','' (remove1 username ulist)\<rparr>) (grpDict s1)\<rparr>)
                else ok s1))"

definition modifyNormalUser ::
  "(string \<Rightarrow> error + string) \<Rightarrow> string \<Rightarrow> int \<Rightarrow> string list \<Rightarrow> pgs \<Rightarrow> outcome" where
  "modifyNormalUser encrypt username op kargs s =
     (if \<not> valid s then raise AssertionError s
      else if username \<notin> set (normalUserList s) then raise AssertionError s
      else if op = MUSER_SET_PASSWORD then
        (case kargs of
           [password] \<Rightarrow>
             (case encrypt password of
                Inl e \<Rightarrow> raise e s
              | Inr h \<Rightarrow>
                 (case map_of (shDict s) username of
                    None \<Rightarrow> raise KeyError s
                  | Some e \<Rightarrow> ok (s\<lparr>shDict := AList.update username
                                     (e\<lparr>sh_encpwd := h\<rparr>) (shDict s)\<rparr>)))
         | _ \<Rightarrow> raise AssertionError s)
      else if op = MUSER_SET_SHELL then raise AssertionError s
      else if op = MUSER_JOIN_GROUP then
        (case kargs of
           [groupname] \<Rightarrow> modifyNormalUser_join username groupname s
         | _ \<Rightarrow> raise AssertionError s)
      else if op = MUSER_LEAVE_GROUP then
        (case kargs of
           [groupname] \<Rightarrow> modifyNormalUser_leave username groupname s
         | _ \<Rightarrow> raise AssertionError s)
      else raise AssertionError s)"

subsection \<open>Stand-alone groups\<close>

text \<open>
  The list comprehension of \<open>addStandAloneGroup\<close> reads \<open>v.grp_gid\<close>, an attribute that class
  \<open>_GrpEntry\<close> does not have (its fields are \<open>gr_name\<close>, \<open>gr_passwd\<close>, \<open>gr_gid\<close>, \<open>gr_mem\<close>):
  the read raises \<open>AttributeError\<close> for the first value of the dictionary, and the
  comprehension is the empty list only when the dictionary is empty.
\<close>

definition grp_gid :: "GrpEntry \<Rightarrow> error + int" where
  "grp_gid v = Inl AttributeError"

fun comprehension :: "('a \<Rightarrow> error + 'b) \<Rightarrow> 'a list \<Rightarrow> error + 'b list" where
  "comprehension f [] = Inr []"
| "comprehension f (x # xs) =
     (case f x of
        Inl e \<Rightarrow> Inl e
      | Inr y \<Rightarrow> (case comprehension f xs of Inl e \<Rightarrow> Inl e | Inr ys \<Rightarrow> Inr (y # ys)))"

text \<open>
  The \<open>while True\<close> loop of \<open>addStandAloneGroup\<close>, started at \<open>newGid = 5000\<close>;
  \<open>Inl PgsAddGroupError\<close> is its \<open>raise\<close>, \<open>Inr\<close> the value at \<open>break\<close>.
\<close>

function newGid_loop :: "GrpEntry list \<Rightarrow> int \<Rightarrow> error + int" where
  "newGid_loop vals newGid =
     (if newGid \<ge> 10000 then Inl PgsAddGroupError
      else (case comprehension grp_gid vals of
              Inl e \<Rightarrow> Inl e
            | Inr gids \<Rightarrow>
                if newGid \<in> set gids then newGid_loop vals (newGid + 1) else Inr newGid))"
  by pat_completeness auto
termination
  by (relation "measure (\<lambda>(vals, newGid). nat (10000 - newGid))") auto

definition addStandAloneGroup :: "string \<Rightarrow> pgs \<Rightarrow> outcome" where
  "addStandAloneGroup groupname s =
     (if \<not> valid s then raise AssertionError s
      else if has_key (grpDict s) groupname then raise AssertionError s
      else
        (case newGid_loop (map snd (grpDict s)) 5000 of
           Inl e \<Rightarrow> raise e s
         | Inr newGid \<Rightarrow>
             ok (s\<lparr>grpDict := AList.update groupname
                     \<lparr>gr_name = groupname, gr_passwd = ''x'', gr_gid = newGid, gr_mem = []\<rparr>
                     (grpDict s),
                   standAloneGroupList := standAloneGroupList s @ [groupname]\<rparr>)))"

definition removeStandAloneGroup :: "string \<Rightarrow> pgs \<Rightarrow> outcome" where
  "removeStandAloneGroup groupname s =
     (if \<not> valid s then raise AssertionError s
      else
        (let s1 = s\<lparr>secondaryGroupsDict :=
                      map (\<lambda>(uname, glist).
                             (uname, if groupname \<in> set glist then remove1 groupname glist else glist))
                          (secondaryGroupsDict s)\<rparr>
         in if groupname \<in> set (standAloneGroupList s1) then
              (let s2 = s1\<lparr>standAloneGroupList := remove1 groupname (standAloneGroupList s1)\<rparr>
               in if has_key (grpDict s2) groupname
                  then ok (s2\<lparr>grpDict := AList.delete groupname (grpDict s2)\<rparr>)
                  else raise KeyError s2)
            else ok s1))"

subsection \<open>Classifying the user table\<close>

text \<open>
  The loop of \<open>_parsePasswd\<close> from \<open>self.pwdDict[t[0]] = self._PwdEntry(t)\<close> on, over the
  records built from the lines of seven fields: \<open>t[0]\<close> is \<open>pw_name\<close> and \<open>int(t[2])\<close> is
  \<open>pw_uid\<close>. The branches are in the order of the source.
\<close>

definition parsePasswd_entry :: "PwdEntry \<Rightarrow> pgs \<Rightarrow> pgs" where
  "parsePasswd_entry t s =
     (let s1 = s\<lparr>pwdDict := AList.update (pw_name t) t (pwdDict s)\<rparr>
      in if pw_name t \<in> set stdSystemUserList
           then s1\<lparr>systemUserList := systemUserList s1 @ [pw_name t]\<rparr>
         else if uidMin s1 \<le> pw_uid t \<and> pw_uid t < uidMax s1
           then s1\<lparr>normalUserList := normalUserList s1 @ [pw_name t]\<rparr>
         else if pw_name t \<in> set stdDeprecatedUserList
           then s1\<lparr>deprecatedUserList := deprecatedUserList s1 @ [pw_name t]\<rparr>
         else s1\<lparr>softwareUserList := softwareUserList s1 @ [pw_name t]\<rparr>)"

definition parsePasswd :: "PwdEntry list \<Rightarrow> pgs \<Rightarrow> pgs" where
  "parsePasswd ts s = fold parsePasswd_entry ts s"

subsection \<open>Verification, stage 1\<close>

definition verifyStage1_normalUser :: "pgs \<Rightarrow> string \<Rightarrow> error option" where
  "verifyStage1_normalUser s uname =
     (case map_of (pwdDict s) uname of
        None \<Rightarrow> Some KeyError
      | Some p \<Rightarrow>
          if \<not> (uidMin s \<le> pw_uid p \<and> pw_uid p < uidMax s) then Some PgsFormatError
          else
            (case map_of (grpDict s) uname of
               None \<Rightarrow> Some KeyError
             | Some g \<Rightarrow>
                 if pw_uid p \<noteq> gr_gid g then Some PgsFormatError
                 else
                   (case map_of (shDict s) uname of
                      None \<Rightarrow> Some KeyError
                    | Some sh \<Rightarrow>
                        if length (sh_encpwd sh) \<le> 4 then Some PgsFormatError
                        else if \<not> has_key (shDict s) uname then Some PgsFormatError
                        else None)))"

definition verifyStage1_standAloneGroup :: "pgs \<Rightarrow> string \<Rightarrow> error option" where
  "verifyStage1_standAloneGroup s gname =
     (case map_of (grpDict s) gname of
        None \<Rightarrow> Some KeyError
      | Some g \<Rightarrow>
          if \<not> (gidMin s \<le> gr_gid g \<and> gr_gid g < gidMax s) then Some PgsFormatError
          else None)"

definition verifyStage1 :: "pgs \<Rightarrow> error option" where
  "verifyStage1 s =
     orElse (if set (systemUserList s) \<noteq> set stdSystemUserList then Some PgsFormatError else None)
    (orElse (firstError (\<lambda>uname. if \<not> has_key (shDict s) uname then Some PgsFormatError else None)
               (systemUserList s))
    (orElse (firstError (verifyStage1_normalUser s) (normalUserList s))
    (orElse (if set (systemGroupList s) \<noteq> set stdSystemGroupList then Some PgsFormatError else None)
    (orElse (if set (perUserGroupList s) \<noteq> set (normalUserList s) then Some PgsFormatError else None)
            (firstError (verifyStage1_standAloneGroup s) (standAloneGroupList s))))))"

subsection \<open>Verification, stage 2\<close>

definition lookup_uid :: "pgs \<Rightarrow> string \<Rightarrow> error + int" where
  "lookup_uid s x = (case map_of (pwdDict s) x of None \<Rightarrow> Inl KeyError | Some p \<Rightarrow> Inr (pw_uid p))"

definition lookup_gid :: "pgs \<Rightarrow> string \<Rightarrow> error + int" where
  "lookup_gid s x = (case map_of (grpDict s) x of None \<Rightarrow> Inl KeyError | Some g \<Rightarrow> Inr (gr_gid g))"

definition check_gecos :: "pgs \<Rightarrow> string \<Rightarrow> error option" where
  "check_gecos s uname =
     (case map_of (pwdDict s) uname of
        None \<Rightarrow> Some KeyError
      | Some p \<Rightarrow> if pw_gecos p \<noteq> [] then Some PgsFormatError else None)"

definition verifyStage2_systemUsers :: "pgs \<Rightarrow> error option" where
  "verifyStage2_systemUsers s =
     orElse (if systemUserList s \<noteq> stdSystemUserList then Some PgsFormatError else None)
            (firstError (check_gecos s) (systemUserList s))"

definition verifyStage2_normalUsers :: "pgs \<Rightarrow> error option" where
  "verifyStage2_normalUsers s =
     (case comprehension (lookup_uid s) (normalUserList s) of
        Inl e \<Rightarrow> Some e
      | Inr uidList \<Rightarrow>
          orElse (if uidList \<noteq> sort uidList then Some PgsFormatError else None)
                 (firstError (check_gecos s) (normalUserList s)))"

definition verifyStage2_softwareUser :: "pgs \<Rightarrow> string \<Rightarrow> error option" where
  "verifyStage2_softwareUser s uname =
     (case map_of (pwdDict s) uname of
        None \<Rightarrow> Some KeyError
      | Some p \<Rightarrow>
          if pw_uid p \<ge> uidMin s then Some PgsFormatError
          else if pw_shell p \<noteq> ''/sbin/nologin'' then Some PgsFormatError
          else if has_key (shDict s) uname then Some PgsFormatError
          else None)"

definition verifyStage2_standAloneGroups :: "pgs \<Rightarrow> error option" where
  "verifyStage2_standAloneGroups s =
     (case comprehension (lookup_gid s) (standAloneGroupList s) of
        Inl e \<Rightarrow> Some e
      | Inr gidList \<Rightarrow> if gidList \<noteq> sort gidList then Some PgsFormatError else None)"

definition verifyStage2_softwareGroup :: "pgs \<Rightarrow> string \<Rightarrow> error option" where
  "verifyStage2_softwareGroup s gname =
     (case map_of (grpDict s) gname of
        None \<Rightarrow> Some KeyError
      | Some g \<Rightarrow> if gr_gid g \<ge> gidMin s then Some PgsFormatError else None)"

text \<open>The body of \<open>for uname, grpList in self.secondaryGroupsDict.items()\<close>.\<close>

definition verifyStage2_secondary :: "pgs \<Rightarrow> string \<times> string list \<Rightarrow> error option" where
  "verifyStage2_secondary s item =
     (case item of (uname, grpList) \<Rightarrow>
        if uname \<notin> set (systemUserList s @ normalUserList s @ softwareUserList s) then None
        else firstError (\<lambda>gname. if gname \<in> set (deprecatedGroupList s)
                                   then Some PgsFormatError else None) grpList)"

definition verifyStage2_member :: "string \<times> GrpEntry \<Rightarrow> error option" where
  "verifyStage2_member item =
     (case item of (gname, g) \<Rightarrow>
        if gr_mem g \<noteq> join '','' (ulist_of (gr_mem g)) then Some PgsFormatError else None)"

text \<open>The slice \<open>xs[i:i + n]\<close> for \<open>0 \<le> i\<close> and \<open>0 \<le> n\<close>.\<close>

definition slice :: "'a list \<Rightarrow> nat \<Rightarrow> nat \<Rightarrow> 'a list" where
  "slice xs i n = take n (drop i xs)"

definition verifyStage2_shadow :: "pgs \<Rightarrow> error option" where
  "verifyStage2_shadow s =
     (let i = 0 in
      if systemUserList s \<noteq> slice (shadowEntryList s) i (length (systemUserList s))
        then Some PgsFormatError
      else let i = i + length (systemUserList s) in
      if normalUserList s \<noteq> slice (shadowEntryList s) i (length (normalUserList s))
        then Some PgsFormatError
      else let i = i + length (normalUserList s) in
      if i \<noteq> length (shadowEntryList s) then Some PgsFormatError
      else None)"

text \<open>
  \<open>self._readFile(self.gshadowFile)\<close> reads a file: \<open>gshadow\<close> is its content, \<open>None\<close> when
  the file cannot be read.
\<close>

definition verifyStage2_gshadow :: "string option \<Rightarrow> error option" where
  "verifyStage2_gshadow gshadow =
     (case gshadow of
        None \<Rightarrow> Some OSError
      | Some buf \<Rightarrow> if length buf > 0 then Some PgsFormatError else None)"

definition verifyStage2_subUidList :: "pgs \<Rightarrow> error option" where
  "verifyStage2_subUidList s =
     (let i = 0 in
      if normalUserList s \<noteq> slice (subUidEntryList s) i (length (normalUserList s))
        then Some PgsFormatError
      else let i = i + length (normalUserList s) in
      if softwareUserList s \<noteq> slice (subUidEntryList s) i (length (softwareUserList s))
        then Some PgsFormatError
      else let i = i + length (softwareUserList s) in
      if i \<noteq> length (subUidEntryList s) then Some PgsFormatError
      else None)"

text \<open>
  The body of the two value-range loops; \<open>%\<close> raises \<open>ZeroDivisionError\<close> on a zero block
  size and is the floored remainder otherwise, as \<open>mod\<close> on \<open>int\<close> is.
\<close>

definition verifyStage2_subId :: "int \<Rightarrow> int \<Rightarrow> int \<Rightarrow> string \<times> SubUidGidEntry \<Rightarrow> error option" where
  "verifyStage2_subId rangeMin rangeMax blockSize item =
     (case item of (uname, obj) \<Rightarrow>
        if \<not> (rangeMin \<le> start obj \<and> start obj < rangeMax) then Some PgsFormatError
        else if blockSize = 0 then Some ZeroDivisionError
        else if (start obj - rangeMin) mod blockSize \<noteq> 0 then Some PgsFormatError
        else if count obj \<noteq> blockSize then Some PgsFormatError
        else None)"

definition verifyStage2 :: "string option \<Rightarrow> pgs \<Rightarrow> error option" where
  "verifyStage2 gshadow s =
     orElse (verifyStage2_systemUsers s)
    (orElse (verifyStage2_normalUsers s)
    (orElse (firstError (verifyStage2_softwareUser s) (softwareUserList s))
    (orElse (verifyStage2_standAloneGroups s)
    (orElse (firstError (verifyStage2_softwareGroup s) (softwareGroupList s))
    (orElse (if has_key (secondaryGroupsDict s) ''root'' then Some PgsFormatError else None)
    (orElse (firstError (verifyStage2_secondary s) (secondaryGroupsDict s))
    (orElse (firstError verifyStage2_member (grpDict s))
    (orElse (verifyStage2_shadow s)
    (orElse (verifyStage2_gshadow gshadow)
    (orElse (verifyStage2_subUidList s)
    (orElse (firstError (verifyStage2_subId (subUidMin s) (subUidMax s) (subUidCount s))
               (subUidDict s))
    (orElse (if subUidEntryList s \<noteq> subGidEntryList s then Some PgsFormatError else None)
            (firstError (verifyStage2_subId (subGidMin s) (subGidMax s) (subGidCount s))
               (subGidDict s))))))))))))))"

text \<open>\<open>verify\<close>: the assertion, stage 1, then stage 2.\<close>

definition verify :: "string option \<Rightarrow> pgs \<Rightarrow> error option" where
  "verify gshadow s =
     (if \<not> valid s then Some AssertionError
      else orElse (verifyStage1 s) (verifyStage2 gshadow s))"

subsection \<open>The repair pass \<open>_fixate\<close>\<close>

text \<open>
  One definition for each commented block of \<open>_fixate\<close>, in the order of the source.
  \<open>list.sort(key=f)\<close> calls \<open>f\<close> on every element first (an exception there leaves the list
  as it was) and then sorts the elements by these keys, stably.

  Lists are values here. In the source, \<open>self.perUserGroupList = self.normalUserList\<close> makes
  the two attributes one list object (and the two system lists become the class's constant
  lists). Neither \<open>_fixate\<close> nor the verification updates a list in place after that except
  by the sort of \<open>normalUserList\<close>, whose result is assigned to \<open>perUserGroupList\<close> again, so the
  values computed here are those of the source for \<open>_fixate\<close>, for \<open>_fixate\<close> applied again and
  for the verification that follows; \<open>close\<close> invalidates the object right after \<open>_fixate\<close>, so
  no mutation call of an open object sees the shared list.
\<close>

definition sort_by_keys :: "int list \<Rightarrow> string list \<Rightarrow> string list" where
  "sort_by_keys ks xs = map snd (sort_key fst (zip ks xs))"

definition set_gecos :: "string \<Rightarrow> pgs \<Rightarrow> outcome" where
  "set_gecos uname s =
     (case map_of (pwdDict s) uname of
        None \<Rightarrow> raise KeyError s
      | Some p \<Rightarrow> ok (s\<lparr>pwdDict := AList.update uname (p\<lparr>pw_gecos := []\<rparr>) (pwdDict s)\<rparr>))"

definition set_shell :: "string \<Rightarrow> pgs \<Rightarrow> outcome" where
  "set_shell uname s =
     (case map_of (pwdDict s) uname of
        None \<Rightarrow> raise KeyError s
      | Some p \<Rightarrow> ok (s\<lparr>pwdDict := AList.update uname (p\<lparr>pw_shell := ''/sbin/nologin''\<rparr>)
                                        (pwdDict s)\<rparr>))"

definition del_shadow :: "string \<Rightarrow> pgs \<Rightarrow> outcome" where
  "del_shadow uname s =
     (if has_key (shDict s) uname then ok (s\<lparr>shDict := AList.delete uname (shDict s)\<rparr>)
      else ok s)"

definition fixate_systemUsers :: "pgs \<Rightarrow> outcome" where
  "fixate_systemUsers s =
     (if set (systemUserList s) \<noteq> set stdSystemUserList then raise AssertionError s
      else
        (let s1 = s\<lparr>systemUserList := stdSystemUserList\<rparr>
         in forEach set_gecos (systemUserList s1) s1))"

definition fixate_normalUsers :: "pgs \<Rightarrow> outcome" where
  "fixate_normalUsers s =
     (case comprehension (lookup_uid s) (normalUserList s) of
        Inl e \<Rightarrow> raise e s
      | Inr ks \<Rightarrow>
          (let s1 = s\<lparr>normalUserList := sort_by_keys ks (normalUserList s)\<rparr>
           in forEach set_gecos (normalUserList s1) s1))"

definition fixate_softwareUsers :: "pgs \<Rightarrow> outcome" where
  "fixate_softwareUsers s =
     andThen (forEach set_shell (softwareUserList s) s)
             (\<lambda>s. forEach del_shadow (softwareUserList s) s)"

definition fixate_systemGroups :: "pgs \<Rightarrow> outcome" where
  "fixate_systemGroups s =
     (if set (systemGroupList s) \<noteq> set stdSystemGroupList then raise AssertionError s
      else ok (s\<lparr>systemGroupList := stdSystemGroupList\<rparr>))"

definition fixate_perUserGroups :: "pgs \<Rightarrow> outcome" where
  "fixate_perUserGroups s =
     (if set (perUserGroupList s) \<noteq> set (normalUserList s) then raise AssertionError s
      else ok (s\<lparr>perUserGroupList := normalUserList s\<rparr>))"

text \<open>
  The key of the stand-alone sort is \<open>self.grpDict[x].pw_gid\<close>; class \<open>_GrpEntry\<close> has no
  attribute \<open>pw_gid\<close>, so the key raises for every element: \<open>KeyError\<close> when the name has no
  record, \<open>AttributeError\<close> otherwise.
\<close>

definition key_pw_gid :: "pgs \<Rightarrow> string \<Rightarrow> error + int" where
  "key_pw_gid s x = (case map_of (grpDict s) x of None \<Rightarrow> Inl KeyError | Some g \<Rightarrow> Inl AttributeError)"

definition fixate_standAloneGroups :: "pgs \<Rightarrow> outcome" where
  "fixate_standAloneGroups s =
     (case comprehension (key_pw_gid s) (standAloneGroupList s) of
        Inl e \<Rightarrow> raise e s
      | Inr ks \<Rightarrow> ok (s\<lparr>standAloneGroupList := sort_by_keys ks (standAloneGroupList s)\<rparr>))"

definition fixate_root :: "pgs \<Rightarrow> outcome" where
  "fixate_root s =
     (let s1 = (if has_key (secondaryGroupsDict s) ''root''
                then s\<lparr>secondaryGroupsDict := AList.delete ''root'' (secondaryGroupsDict s)\<rparr>
                else s)
      in ok (s1\<lparr>grpDict := map (\<lambda>(gname, entry). (gname, scrub_member ''root'' entry))
                              (grpDict s1)\<rparr>))"

definition fixate_members :: "pgs \<Rightarrow> outcome" where
  "fixate_members s =
     ok (s\<lparr>grpDict := map (\<lambda>(gname, g). (gname, g\<lparr>gr_mem := join '','' (ulist_of (gr_mem g))\<rparr>))
                          (grpDict s)\<rparr>)"

text \<open>
  \<open>for uname in set(d.keys()) - set(entryList): del d[uname]\<close> keeps the entries whose key
  is in the entry list.
\<close>

definition keep_keys :: "string list \<Rightarrow> (string \<times> 'v) list \<Rightarrow> (string \<times> 'v) list" where
  "keep_keys entryList d = filter (\<lambda>(k, v). k \<in> set entryList) d"

definition fixate_shadow :: "pgs \<Rightarrow> outcome" where
  "fixate_shadow s =
     (if \<not> set (systemUserList s @ normalUserList s) \<subseteq> set (shadowEntryList s)
        then raise AssertionError s
      else
        (let s1 = s\<lparr>shadowEntryList := systemUserList s @ normalUserList s\<rparr>
         in ok (s1\<lparr>shDict := keep_keys (shadowEntryList s1) (shDict s1)\<rparr>)))"

text \<open>
  The loop that adds the missing subordinate entries, with its local variable \<open>m\<close>; it
  stops at \<open>assert m < rangeMax\<close> with the dictionary as it is then.
\<close>

fun add_missing ::
  "int \<Rightarrow> int \<Rightarrow> string list \<Rightarrow> int \<Rightarrow> (string \<times> SubUidGidEntry) list
     \<Rightarrow> error option \<times> (string \<times> SubUidGidEntry) list" where
  "add_missing rangeMax blockSize [] m d = (None, d)"
| "add_missing rangeMax blockSize (uname # rest) m d =
     (if \<not> has_key d uname then
        (if \<not> m < rangeMax then (Some AssertionError, d)
         else add_missing rangeMax blockSize rest (m + blockSize)
                (AList.update uname \<lparr>name = uname, start = m, count = blockSize\<rparr> d))
      else add_missing rangeMax blockSize rest m d)"

definition fixate_subUid :: "pgs \<Rightarrow> outcome" where
  "fixate_subUid s =
     (let s1 = s\<lparr>subUidEntryList := normalUserList s @ softwareUserList s\<rparr>;
          s2 = s1\<lparr>subUidDict := keep_keys (subUidEntryList s1) (subUidDict s1)\<rparr>;
          m = max_end (subUidMin s2) (subUidDict s2)
      in case add_missing (subUidMax s2) (subUidCount s2) (subUidEntryList s2) m (subUidDict s2) of
           (None, d) \<Rightarrow> ok (s2\<lparr>subUidDict := d\<rparr>)
         | (Some e, d) \<Rightarrow> raise e (s2\<lparr>subUidDict := d\<rparr>))"

definition fixate_subGid :: "pgs \<Rightarrow> outcome" where
  "fixate_subGid s =
     (let s1 = s\<lparr>subGidEntryList := subUidEntryList s\<rparr>;
          s2 = s1\<lparr>subGidDict := keep_keys (subGidEntryList s1) (subGidDict s1)\<rparr>;
          m = max_end (subGidMin s2) (subGidDict s2)
      in case add_missing (subGidMax s2) (subGidCount s2) (subGidEntryList s2) m (subGidDict s2) of
           (None, d) \<Rightarrow> ok (s2\<lparr>subGidDict := d\<rparr>)
         | (Some e, d) \<Rightarrow> raise e (s2\<lparr>subGidDict := d\<rparr>))"

definition fixate :: "pgs \<Rightarrow> outcome" where
  "fixate s =
     andThen (fixate_systemUsers s) (\<lambda>s.
     andThen (fixate_normalUsers s) (\<lambda>s.
     andThen (fixate_softwareUsers s) (\<lambda>s.
     andThen (fixate_systemGroups s) (\<lambda>s.
     andThen (fixate_perUserGroups s) (\<lambda>s.
     andThen (fixate_standAloneGroups s) (\<lambda>s.
     andThen (fixate_root s) (\<lambda>s.
     andThen (fixate_members s) (\<lambda>s.
     andThen (fixate_shadow s) (\<lambda>s.
     andThen (fixate_subUid s) fixate_subGid)))))))))"

subsection \<open>Example databases\<close>

text \<open>
  \<open>db_base\<close> is the database loaded from a policy file with \<open>UID_MIN 1000\<close>,
  \<open>UID_MAX 10000\<close>, \<open>GID_MIN 1000\<close>, \<open>GID_MAX 10000\<close>, subordinate ranges from \<open>100000\<close>
  to \<open>6653600\<close> in blocks of \<open>65536\<close>, the users \<open>root\<close> and \<open>nobody\<close> with their shadow
  entries, the five system groups and the device group \<open>audio\<close>. The other examples are
  built from it.
\<close>

definition mk_pwd :: "string \<Rightarrow> int \<Rightarrow> string \<Rightarrow> string \<Rightarrow> string \<Rightarrow> PwdEntry" where
  "mk_pwd n u gecos dir shell =
     \<lparr>pw_name = n, pw_passwd = ''x'', pw_uid = u, pw_gid = u, pw_gecos = gecos, pw_dir = dir,
      pw_shell = shell\<rparr>"

definition mk_grp :: "string \<Rightarrow> int \<Rightarrow> string \<Rightarrow> GrpEntry" where
  "mk_grp n g mem = \<lparr>gr_name = n, gr_passwd = ''x'', gr_gid = g, gr_mem = mem\<rparr>"

definition mk_sh :: "string \<Rightarrow> string \<Rightarrow> ShadowEntry" where
  "mk_sh n h = \<lparr>sh_name = n, sh_encpwd = h\<rparr>"

definition db_base :: pgs where
  "db_base =
     \<lparr>valid = True, uidMin = 1000, uidMax = 10000, gidMin = 1000, gidMax = 10000,
      subUidMin = 100000, subUidMax = 6653600, subUidCount = 65536,
      subGidMin = 100000, subGidMax = 6653600, subGidCount = 65536,
      systemUserList = [''root'', ''nobody''], normalUserList = [], softwareUserList = [],
      deprecatedUserList = [],
      pwdDict = [(''root'', mk_pwd ''root'' 0 ''root'' ''/root'' ''/bin/bash''),
                 (''nobody'', mk_pwd ''nobody'' 65534 ''nobody'' ''/'' ''/sbin/nologin'')],
      systemGroupList = [''root'', ''nobody'', ''nogroup'', ''wheel'', ''users''],
      deviceGroupList = [''audio''], perUserGroupList = [], standAloneGroupList = [],
      softwareGroupList = [], deprecatedGroupList = [],
      secondaryGroupsDict = [],
      grpDict = [(''root'', mk_grp ''root'' 0 []), (''nobody'', mk_grp ''nobody'' 65534 []),
                 (''nogroup'', mk_grp ''nogroup'' 65533 []), (''wheel'', mk_grp ''wheel'' 10 []),
                 (''users'', mk_grp ''users'' 100 []), (''audio'', mk_grp ''audio'' 18 [])],
      shadowEntryList = [''root'', ''nobody''],
      shDict = [(''root'', mk_sh ''root'' ''$6$salt$hash''), (''nobody'', mk_sh ''nobody'' ''*'')],
      subUidEntryList = [], subUidDict = [], subGidEntryList = [], subGidDict = []\<rparr>"

text \<open>
  \<open>db_alice\<close>: \<open>db_base\<close> and the normal user \<open>alice\<close> (uid and per-user group 1000) with a
  shadow entry and subordinate ranges.
\<close>

definition db_alice :: pgs where
  "db_alice =
     db_base\<lparr>normalUserList := [''alice''],
             pwdDict := pwdDict db_base @ [(''alice'', mk_pwd ''alice'' 1000 [] ''/home/alice'' ''/bin/bash'')],
             perUserGroupList := [''alice''],
             grpDict := grpDict db_base @ [(''alice'', mk_grp ''alice'' 1000 [])],
             shadowEntryList := [''root'', ''nobody'', ''alice''],
             shDict := shDict db_base @ [(''alice'', mk_sh ''alice'' ''$6$salt$alice'')],
             subUidEntryList := [''alice''],
             subUidDict := [(''alice'', \<lparr>name = ''alice'', start = 100000, count = 65536\<rparr>)],
             subGidEntryList := [''alice''],
             subGidDict := [(''alice'', \<lparr>name = ''alice'', start = 100000, count = 65536\<rparr>)]\<rparr>"

text \<open>
  \<open>db_noshadow\<close>: as \<open>db_alice\<close>, but the shadow table has no line for \<open>alice\<close>.
\<close>

definition db_noshadow :: pgs where
  "db_noshadow = db_alice\<lparr>shadowEntryList := [''root'', ''nobody''], shDict := shDict db_base\<rparr>"

text \<open>
  \<open>db_member\<close>: as \<open>db_alice\<close>, with \<open>alice\<close> already a member of the group \<open>audio\<close>
  (group line \<open>audio:x:18:alice\<close>).
\<close>

definition db_member :: pgs where
  "db_member =
     db_alice\<lparr>secondaryGroupsDict := [(''alice'', [''audio''])],
              grpDict := AList.update ''audio'' (mk_grp ''audio'' 18 ''alice'') (grpDict db_alice)\<rparr>"

text \<open>
  \<open>db_rootroot\<close>: as \<open>db_base\<close>, with the group line \<open>wheel:x:10:root,root\<close>.
\<close>

definition db_rootroot :: pgs where
  "db_rootroot =
     db_base\<lparr>secondaryGroupsDict := [(''root'', [''wheel'', ''wheel''])],
             grpDict := AList.update ''wheel'' (mk_grp ''wheel'' 10 ''root,root'') (grpDict db_base)\<rparr>"

text \<open>
  \<open>db_empty\<close>: the object after the policy file is read and before any table is parsed.
\<close>

definition db_empty :: pgs where
  "db_empty =
     db_base\<lparr>systemUserList := [], pwdDict := [], systemGroupList := [], deviceGroupList := [],
             grpDict := [], shadowEntryList := [], shDict := []\<rparr>"

text \<open>
  An integer is in use when it is the uid of a user record or the gid of a group record:
  the two lists that the loop of \<open>addNormalUser\<close> searches.
\<close>

definition id_used :: "pgs \<Rightarrow> int \<Rightarrow> bool" where
  "id_used s n = (n \<in> set (map (pw_uid \<circ> snd) (pwdDict s)) \<or> n \<in> set (map (gr_gid \<circ> snd) (grpDict s)))"

text \<open>
  \<open>db_full\<close>: \<open>db_base\<close> and one normal user for every uid from 1000 to 9999.
\<close>

definition full_ids :: "int list" where
  "full_ids = [1000..9999]"

definition db_full :: pgs where
  "db_full =
     db_base\<lparr>normalUserList := map (\<lambda>i. replicate (nat i) CHR ''u'') full_ids,
             pwdDict := pwdDict db_base
                @ map (\<lambda>i. (replicate (nat i) CHR ''u'',
                             mk_pwd (replicate (nat i) CHR ''u'') i [] ''/home'' ''/bin/bash''))
                      full_ids\<rparr>"

text \<open>
  \<open>db_staff\<close>: \<open>db_base\<close> and the stand-alone group line \<open>staff:x:5000:ghost\<close>, whose member
  \<open>ghost\<close> is not a user. \<open>db_ghost\<close> is the database after \<open>removeStandAloneGroup("staff")\<close>:
  the index keeps the key \<open>ghost\<close> with the empty list.
\<close>

definition db_staff :: pgs where
  "db_staff =
     db_base\<lparr>standAloneGroupList := [''staff''],
             grpDict := grpDict db_base @ [(''staff'', mk_grp ''staff'' 5000 ''ghost'')],
             secondaryGroupsDict := [(''ghost'', [''staff''])]\<rparr>"

definition db_ghost :: pgs where
  "db_ghost = db_base\<lparr>secondaryGroupsDict := [(''ghost'', [])]\<rparr>"

text \<open>
  \<open>db_two\<close>: as \<open>db_alice\<close>, with a second normal user \<open>bob\<close> (uid 1001) whose per-user
  group lists \<open>alice\<close> as a member (group line \<open>bob:x:1001:alice\<close>).
\<close>

definition db_two :: pgs where
  "db_two =
     db_alice\<lparr>normalUserList := [''alice'', ''bob''],
              pwdDict := pwdDict db_alice @ [(''bob'', mk_pwd ''bob'' 1001 [] ''/home/bob'' ''/bin/bash'')],
              perUserGroupList := [''alice'', ''bob''],
              grpDict := grpDict db_alice @ [(''bob'', mk_grp ''bob'' 1001 ''alice'')],
              secondaryGroupsDict := [(''alice'', [''bob''])],
              shadowEntryList := [''root'', ''nobody'', ''alice'', ''bob''],
              shDict := shDict db_alice @ [(''bob'', mk_sh ''bob'' ''$6$salt$bob'')],
              subUidEntryList := [''alice'', ''bob''],
              subUidDict := subUidDict db_alice
                 @ [(''bob'', \<lparr>name = ''bob'', start = 165536, count = 65536\<rparr>)],
              subGidEntryList := [''alice'', ''bob''],
              subGidDict := subGidDict db_alice
                 @ [(''bob'', \<lparr>name = ''bob'', start = 165536, count = 65536\<rparr>)]\<rparr>"

text \<open>
  \<open>example_encrypt\<close> stands for the library hash in the concrete evaluations: it raises
  \<open>ValueError\<close> for a secret that contains a NUL character or has more than 4096 characters
  and returns a hash string otherwise.
\<close>

definition example_encrypt :: "string \<Rightarrow> error + string" where
  "example_encrypt pw =
     (if CHR 0x00 \<in> set pw \<or> length pw > 4096 then Inl ValueError else Inr (''$6$'' @ pw))"

text \<open>
  \<open>db_dupsub\<close>: as \<open>db_alice\<close>, loaded from a subordinate-gid file with the line of \<open>alice\<close>
  twice. \<open>db_dupgrp\<close>: as \<open>db_alice\<close>, loaded from a group file with the stand-alone group
  line \<open>staff:x:5000:\<close> twice.
\<close>

definition db_dupsub :: pgs where
  "db_dupsub = db_alice\<lparr>subGidEntryList := [''alice'', ''alice'']\<rparr>"

definition db_dupgrp :: pgs where
  "db_dupgrp =
     db_alice\<lparr>standAloneGroupList := [''staff'', ''staff''],
              grpDict := grpDict db_alice @ [(''staff'', mk_grp ''staff'' 5000 [])]\<rparr>"

text \<open>
  \<open>db_soft\<close>: \<open>db_base\<close> and the user line \<open>www:x:70000:70000::/var/www:/sbin/nologin\<close>; the
  uid is above \<open>UID_MAX\<close>, so the user is classified as a software user.
  \<open>db_www\<close>: \<open>db_member\<close> and a software user and group \<open>www\<close> (id 80) with a comment, a login
  shell and a shadow entry, which \<open>_fixate\<close> repairs.
\<close>

definition db_soft :: pgs where
  "db_soft =
     db_base\<lparr>softwareUserList := [''www''],
             pwdDict := pwdDict db_base @ [(''www'', mk_pwd ''www'' 70000 [] ''/var/www'' ''/sbin/nologin'')]\<rparr>"

definition db_www :: pgs where
  "db_www =
     db_member\<lparr>softwareUserList := [''www''],
               pwdDict := pwdDict db_member @ [(''www'', mk_pwd ''www'' 80 ''web'' ''/var/www'' ''/bin/false'')],
               softwareGroupList := [''www''],
               grpDict := grpDict db_member @ [(''www'', mk_grp ''www'' 80 [])],
               shadowEntryList := [''root'', ''nobody'', ''alice'', ''www''],
               shDict := shDict db_member @ [(''www'', mk_sh ''www'' ''!'')]\<rparr>"

section \<open>Properties\<close>

subsection \<open>The sorted list of secondary groups\<close>

lemma sort_eq_of_mset:
  fixes xs ys :: "string list"
  assumes "mset xs = mset ys"
  shows "sort xs = sort ys"
  by (rule properties_for_sort) (simp_all add: assms)

text \<open>
  Claim C10. On an open database and for a normal user, \<open>getSecondaryGroupsOfUser\<close> returns a
  list that is sorted in the lexicographic order of strings and has exactly the stored
  group names (with their multiplicities); it is empty when the user has no secondary
  group; and it is the same for every database that stores the same names for the user
  in any other order.
\<close>

theorem getSecondaryGroupsOfUser_sorted:
  assumes "valid s" and "username \<in> set (normalUserList s)"
  shows "\<exists>r. getSecondaryGroupsOfUser username s = Inr r
           \<and> sorted r
           \<and> mset r = mset (get_or_empty (secondaryGroupsDict s) username)
           \<and> (get_or_empty (secondaryGroupsDict s) username = [] \<longrightarrow> r = [])
           \<and> (\<forall>s'. valid s' \<and> username \<in> set (normalUserList s')
                  \<and> mset (get_or_empty (secondaryGroupsDict s') username)
                      = mset (get_or_empty (secondaryGroupsDict s) username)
                  \<longrightarrow> getSecondaryGroupsOfUser username s' = Inr r)"
proof -
  let ?r = "sort (get_or_empty (secondaryGroupsDict s) username)"
  have "getSecondaryGroupsOfUser username s = Inr ?r"
    using assms by (simp add: getSecondaryGroupsOfUser_def)
  moreover have "sorted ?r" by simp
  moreover have "mset ?r = mset (get_or_empty (secondaryGroupsDict s) username)" by simp
  moreover have "get_or_empty (secondaryGroupsDict s) username = [] \<longrightarrow> ?r = []" by simp
  moreover have "\<forall>s'. valid s' \<and> username \<in> set (normalUserList s')
                  \<and> mset (get_or_empty (secondaryGroupsDict s') username)
                      = mset (get_or_empty (secondaryGroupsDict s) username)
                  \<longrightarrow> getSecondaryGroupsOfUser username s' = Inr ?r"
    by (auto simp: getSecondaryGroupsOfUser_def intro: sort_eq_of_mset)
  ultimately show ?thesis by blast
qed

theorem getSecondaryGroupsOfUser_sorted_witness:
  "getSecondaryGroupsOfUser ''alice''
     (db_alice\<lparr>secondaryGroupsDict := [(''alice'', [''wheel'', ''audio'', ''users''])]\<rparr>)
   = Inr [''audio'', ''users'', ''wheel'']"
proof -
  let ?s = "db_alice\<lparr>secondaryGroupsDict := [(''alice'', [''wheel'', ''audio'', ''users''])]\<rparr>"
  have v: "valid ?s" by (simp add: db_alice_def db_base_def)
  have n: "''alice'' \<in> set (normalUserList ?s)" by (simp add: db_alice_def db_base_def)
  obtain r where r: "getSecondaryGroupsOfUser ''alice'' ?s = Inr r" "sorted r"
      "mset r = mset (get_or_empty (secondaryGroupsDict ?s) ''alice'')"
    using getSecondaryGroupsOfUser_sorted [OF v n] by blast
  have m: "mset r = mset [''audio'', ''users'', ''wheel'']"
    using r(3) by (simp add: get_or_empty_def)
  have "sort [''audio'', ''users'', ''wheel''] = r"
    by (rule properties_for_sort) (simp_all add: m r(2))
  moreover have "sort [''audio'', ''users'', ''wheel''] = [''audio'', ''users'', ''wheel'']"
    by (rule sorted_sort_id) simp
  ultimately show ?thesis using r(1) by simp
qed

subsection \<open>Evaluations at concrete databases\<close>

text \<open>
  Claim C2. \<open>addStandAloneGroup\<close> with a fresh group name on the loaded database \<open>db_base\<close>
  neither allocates a group id nor raises \<open>PgsAddGroupError\<close>: reading \<open>v.grp_gid\<close> raises
  \<open>AttributeError\<close>, and the database is as before.
\<close>

theorem addStandAloneGroup_AttributeError:
  "\<not> has_key (grpDict db_base) ''staff''
   \<and> addStandAloneGroup ''staff'' db_base = (Some AttributeError, db_base)"
  by code_simp

text \<open>
  Claim C3. The user line \<open>bin:x:1000:1000:bin:/bin:/bin/false\<close>, whose name is on the
  deprecated-user list and whose uid is in the normal range, is put in the normal-user
  list and not in the deprecated-user list: \<open>_parsePasswd\<close> tests the numeric range before
  the deprecated names.
\<close>

theorem parsePasswd_bin_normal:
  "''bin'' \<in> set stdDeprecatedUserList
   \<and> normalUserList (parsePasswd [mk_pwd ''bin'' 1000 ''bin'' ''/bin'' ''/bin/false''] db_empty)
       = [''bin'']
   \<and> deprecatedUserList (parsePasswd [mk_pwd ''bin'' 1000 ''bin'' ''/bin'' ''/bin/false''] db_empty)
       = []"
  by code_simp

text \<open>
  Claim C7. In \<open>db_noshadow\<close> the normal user \<open>alice\<close> has no shadow entry and every other
  stage-1 check passes; stage 1 ends with \<open>KeyError\<close>, raised by \<open>self.shDict[uname]\<close> in the
  password-length test, which comes before the test \<open>uname not in self.shDict\<close>.
\<close>

theorem verifyStage1_noshadow_KeyError:
  "''alice'' \<in> set (normalUserList db_noshadow) \<and> \<not> has_key (shDict db_noshadow) ''alice''
   \<and> verifyStage1 db_noshadow = Some KeyError"
  by code_simp

text \<open>
  Claim C5. On \<open>db_rootroot\<close> (group line \<open>wheel:x:10:root,root\<close>) \<open>_fixate\<close> succeeds, succeeds
  again on its own result, and the second result differs from the first:
  \<open>ulist.remove("root")\<close> removes one occurrence of \<open>root\<close> on each pass.
\<close>

theorem fixate_twice_differs:
  "fst (fixate db_rootroot) = None
   \<and> fst (fixate (snd (fixate db_rootroot))) = None
   \<and> snd (fixate (snd (fixate db_rootroot))) \<noteq> snd (fixate db_rootroot)"
  by code_simp

subsection \<open>Allocation of the user id\<close>

declare newUid_loop.simps [simp del]

lemma newUid_loop_None:
  "newUid_loop uids gids n = None \<longleftrightarrow> (\<forall>k. n \<le> k \<and> k < 10000 \<longrightarrow> k \<in> set uids \<or> k \<in> set gids)"
proof (induction uids gids n rule: newUid_loop.induct)
  case (1 uids gids newUid)
  show ?case
  proof (cases "newUid \<ge> 10000")
    case True
    then show ?thesis by (subst newUid_loop.simps) auto
  next
    case False
    show ?thesis
    proof (cases "newUid \<in> set uids \<or> newUid \<in> set gids")
      case True
      then have "newUid_loop uids gids newUid = newUid_loop uids gids (newUid + 1)"
        using False by (subst newUid_loop.simps) auto
      moreover have "newUid_loop uids gids (newUid + 1) = None \<longleftrightarrow>
          (\<forall>k. newUid + 1 \<le> k \<and> k < 10000 \<longrightarrow> k \<in> set uids \<or> k \<in> set gids)"
        using True False "1.IH" by auto
      moreover have "(\<forall>k. newUid + 1 \<le> k \<and> k < 10000 \<longrightarrow> k \<in> set uids \<or> k \<in> set gids)
          \<longleftrightarrow> (\<forall>k. newUid \<le> k \<and> k < 10000 \<longrightarrow> k \<in> set uids \<or> k \<in> set gids)"
        using True by (metis add1_zle_eq order_less_le)
      ultimately show ?thesis by simp
    next
      case free: False
      then have "newUid_loop uids gids newUid = Some newUid"
        using False by (subst newUid_loop.simps) auto
      moreover have "\<not> (\<forall>k. newUid \<le> k \<and> k < 10000 \<longrightarrow> k \<in> set uids \<or> k \<in> set gids)"
        using free False by (intro notI) (auto dest: spec [of _ newUid])
      ultimately show ?thesis by simp
    qed
  qed
qed

lemma newUid_loop_Some:
  "newUid_loop uids gids n = Some k \<Longrightarrow>
     n \<le> k \<and> k < 10000 \<and> k \<notin> set uids \<and> k \<notin> set gids
     \<and> (\<forall>j. n \<le> j \<and> j < k \<longrightarrow> j \<in> set uids \<or> j \<in> set gids)"
proof (induction uids gids n rule: newUid_loop.induct)
  case (1 uids gids newUid)
  have lt: "newUid < 10000"
    using "1.prems" by (subst (asm) newUid_loop.simps) (auto split: if_splits)
  show ?case
  proof (cases "newUid \<in> set uids \<or> newUid \<in> set gids")
    case True
    then have "newUid_loop uids gids (newUid + 1) = Some k"
      using "1.prems" lt by (subst (asm) newUid_loop.simps) (auto split: if_splits)
    then have ih: "newUid + 1 \<le> k \<and> k < 10000 \<and> k \<notin> set uids \<and> k \<notin> set gids
       \<and> (\<forall>j. newUid + 1 \<le> j \<and> j < k \<longrightarrow> j \<in> set uids \<or> j \<in> set gids)"
      using True lt "1.IH" by auto
    have "\<forall>j. newUid \<le> j \<and> j < k \<longrightarrow> j \<in> set uids \<or> j \<in> set gids"
    proof (intro allI impI)
      fix j assume j: "newUid \<le> j \<and> j < k"
      show "j \<in> set uids \<or> j \<in> set gids"
      proof (cases "j = newUid")
        case True
        then show ?thesis using \<open>newUid \<in> set uids \<or> newUid \<in> set gids\<close> by simp
      next
        case False
        then have "newUid + 1 \<le> j" using j by simp
        then show ?thesis using ih j by blast
      qed
    qed
    then show ?thesis using ih by simp
  next
    case False
    then have "k = newUid"
      using "1.prems" lt by (subst (asm) newUid_loop.simps) (auto split: if_splits)
    then show ?thesis using False lt by auto
  qed
qed

text \<open>
  Claim C1. On an open database and for a name that is neither a user nor a group name:
  when every integer of \<open>[1000, 10000)\<close> is in use as a uid or as a gid, \<open>addNormalUser\<close>
  raises \<open>PgsAddUserError\<close> and changes nothing; otherwise the uid and gid of the new user
  record and the gid of the new per-user group are all the smallest integer from 1000 on
  that is in use neither as a uid nor as a gid, and the call raises nothing unless the
  password hash raises (the records are stored before the hash is computed).
\<close>

theorem addNormalUser_allocates:
  assumes "valid s" and "\<not> has_key (pwdDict s) username" and "\<not> has_key (grpDict s) username"
  shows "((\<forall>n\<in>{1000..<10000}. id_used s n) \<longrightarrow>
            addNormalUser encrypt username password s = (Some PgsAddUserError, s))
       \<and> ((\<exists>n\<in>{1000..<10000}. \<not> id_used s n) \<longrightarrow>
            (\<exists>s' k p g. addNormalUser encrypt username password s
                  = (case encrypt password of Inl e \<Rightarrow> Some e | Inr h \<Rightarrow> None, s')
               \<and> 1000 \<le> k \<and> k < 10000 \<and> \<not> id_used s k
               \<and> (\<forall>j. 1000 \<le> j \<and> j < k \<longrightarrow> id_used s j)
               \<and> map_of (pwdDict s') username = Some p \<and> pw_uid p = k \<and> pw_gid p = k
               \<and> map_of (grpDict s') username = Some g \<and> gr_gid g = k
               \<and> username \<in> set (normalUserList s') \<and> username \<in> set (perUserGroupList s')))"
proof (intro conjI impI)
  let ?uids = "map (pw_uid \<circ> snd) (pwdDict s)" and ?gids = "map (gr_gid \<circ> snd) (grpDict s)"
  assume "\<forall>n\<in>{1000..<10000}. id_used s n"
  then have "newUid_loop ?uids ?gids 1000 = None"
    unfolding newUid_loop_None id_used_def by auto
  then show "addNormalUser encrypt username password s = (Some PgsAddUserError, s)"
    using assms by (simp add: addNormalUser_def raise_def)
next
  let ?uids = "map (pw_uid \<circ> snd) (pwdDict s)" and ?gids = "map (gr_gid \<circ> snd) (grpDict s)"
  let ?r = "case encrypt password of Inl e \<Rightarrow> Some e | Inr h \<Rightarrow> None"
  assume "\<exists>n\<in>{1000..<10000}. \<not> id_used s n"
  then have "newUid_loop ?uids ?gids 1000 \<noteq> None"
    unfolding newUid_loop_None id_used_def by auto
  then obtain k where k: "newUid_loop ?uids ?gids 1000 = Some k" by blast
  note props = newUid_loop_Some [OF k]
  define s' where "s' = snd (addNormalUser encrypt username password s)"
  have "fst (addNormalUser encrypt username password s) = ?r"
    using assms k
    by (cases "encrypt password") (simp_all add: addNormalUser_def ok_def raise_def Let_def)
  then have run: "addNormalUser encrypt username password s = (?r, s')"
    unfolding s'_def by (simp add: prod_eq_iff)
  have pw: "map_of (pwdDict s') username
      = Some \<lparr>pw_name = username, pw_passwd = ''x'', pw_uid = k, pw_gid = k, pw_gecos = [],
              pw_dir = ''/home/'' @ username, pw_shell = ''/bin/bash''\<rparr>"
    using assms k unfolding s'_def
    by (cases "encrypt password")
      (simp_all add: addNormalUser_def ok_def raise_def Let_def update_conv')
  have gr: "map_of (grpDict s') username
      = Some \<lparr>gr_name = username, gr_passwd = ''x'', gr_gid = k, gr_mem = []\<rparr>"
    using assms k unfolding s'_def
    by (cases "encrypt password")
      (simp_all add: addNormalUser_def ok_def raise_def Let_def update_conv')
  have lists: "username \<in> set (normalUserList s') \<and> username \<in> set (perUserGroupList s')"
    using assms k unfolding s'_def
    by (cases "encrypt password") (simp_all add: addNormalUser_def ok_def raise_def Let_def)
  have "1000 \<le> k \<and> k < 10000 \<and> \<not> id_used s k \<and> (\<forall>j. 1000 \<le> j \<and> j < k \<longrightarrow> id_used s j)"
    using props unfolding id_used_def by blast
  then show "\<exists>s' k p g. addNormalUser encrypt username password s = (?r, s')
               \<and> 1000 \<le> k \<and> k < 10000 \<and> \<not> id_used s k
               \<and> (\<forall>j. 1000 \<le> j \<and> j < k \<longrightarrow> id_used s j)
               \<and> map_of (pwdDict s') username = Some p \<and> pw_uid p = k \<and> pw_gid p = k
               \<and> map_of (grpDict s') username = Some g \<and> gr_gid g = k
               \<and> username \<in> set (normalUserList s') \<and> username \<in> set (perUserGroupList s')"
    using run pw gr lists by (intro exI [of _ s'] exI [of _ k]) simp
qed

lemma set_full_ids: "set full_ids = {1000..9999}"
  by (simp only: full_ids_def set_upto)

theorem addNormalUser_allocates_witness:
  "(\<exists>s' p g. addNormalUser example_encrypt ''bob'' ''secret'' db_alice = (None, s')
       \<and> map_of (pwdDict s') ''bob'' = Some p \<and> pw_uid p = 1001 \<and> pw_gid p = 1001
       \<and> map_of (grpDict s') ''bob'' = Some g \<and> gr_gid g = 1001)
   \<and> addNormalUser example_encrypt ''zed'' ''secret'' db_full = (Some PgsAddUserError, db_full)"
proof
  have v: "valid db_alice" by (simp add: db_alice_def db_base_def)
  have p: "\<not> has_key (pwdDict db_alice) ''bob''"
    by (simp add: db_alice_def db_base_def has_key_def)
  have g: "\<not> has_key (grpDict db_alice) ''bob''"
    by (simp add: db_alice_def db_base_def has_key_def)
  have u0: "id_used db_alice 1000"
    by (simp add: id_used_def db_alice_def db_base_def mk_pwd_def mk_grp_def)
  have u1: "\<not> id_used db_alice 1001"
    by (simp add: id_used_def db_alice_def db_base_def mk_pwd_def mk_grp_def)
  then have ex: "\<exists>n\<in>{1000..<10000}. \<not> id_used db_alice n" by (intro bexI [of _ 1001]) simp_all
  have h: "example_encrypt ''secret'' = Inr ''$6$secret''"
    by (simp add: example_encrypt_def)
  from addNormalUser_allocates [OF v p g, of example_encrypt "''secret''"] ex
  have "\<exists>s' k p g. addNormalUser example_encrypt ''bob'' ''secret'' db_alice = (None, s')
               \<and> 1000 \<le> k \<and> k < 10000 \<and> \<not> id_used db_alice k
               \<and> (\<forall>j. 1000 \<le> j \<and> j < k \<longrightarrow> id_used db_alice j)
               \<and> map_of (pwdDict s') ''bob'' = Some p \<and> pw_uid p = k \<and> pw_gid p = k
               \<and> map_of (grpDict s') ''bob'' = Some g \<and> gr_gid g = k
               \<and> ''bob'' \<in> set (normalUserList s') \<and> ''bob'' \<in> set (perUserGroupList s')"
    by (simp add: h)
  then obtain s' k pe ge where r: "addNormalUser example_encrypt ''bob'' ''secret'' db_alice = (None, s')"
      "1000 \<le> k" "\<not> id_used db_alice k" "\<forall>j. 1000 \<le> j \<and> j < k \<longrightarrow> id_used db_alice j"
      "map_of (pwdDict s') ''bob'' = Some pe" "pw_uid pe = k" "pw_gid pe = k"
      "map_of (grpDict s') ''bob'' = Some ge" "gr_gid ge = k"
    by blast
  have "k \<noteq> 1000" using r(3) u0 by auto
  moreover have "\<not> 1001 < k" using r(4) u1 by auto
  ultimately have "k = 1001" using r(2) by linarith
  then show "\<exists>s' p g. addNormalUser example_encrypt ''bob'' ''secret'' db_alice = (None, s')
       \<and> map_of (pwdDict s') ''bob'' = Some p \<and> pw_uid p = 1001 \<and> pw_gid p = 1001
       \<and> map_of (grpDict s') ''bob'' = Some g \<and> gr_gid g = 1001"
    using r by blast
next
  have v: "valid db_full" by (simp add: db_full_def db_base_def)
  have "''zed'' \<noteq> replicate n CHR ''u''" for n
  proof
    assume "''zed'' = replicate n CHR ''u''"
    then have "CHR ''z'' \<in> set (replicate n CHR ''u'')" by (metis list.set_intros(1))
    then show False by simp
  qed
  then have z: "''zed'' \<notin> set (map (\<lambda>i. replicate (nat i) CHR ''u'') full_ids)" by auto
  have p: "\<not> has_key (pwdDict db_full) ''zed''"
    using z by (simp add: db_full_def db_base_def has_key_def comp_def)
  have g: "\<not> has_key (grpDict db_full) ''zed''"
    by (simp add: db_full_def db_base_def has_key_def)
  have "map (pw_uid \<circ> snd) (pwdDict db_full) = map (pw_uid \<circ> snd) (pwdDict db_base) @ full_ids"
    by (simp add: db_full_def comp_def mk_pwd_def)
  then have "\<forall>n\<in>{1000..<10000}. id_used db_full n"
    by (auto simp: id_used_def set_full_ids)
  then show "addNormalUser example_encrypt ''zed'' ''secret'' db_full = (Some PgsAddUserError, db_full)"
    using addNormalUser_allocates [OF v p g] by blast
qed

subsection \<open>Removing an absent name\<close>

lemma andThen_ok [simp]: "andThen (ok s) f = f s"
  by (simp add: andThen_def ok_def)

lemma andThen_raise [simp]: "andThen (raise e s) f = raise e s"
  by (simp add: andThen_def raise_def)

lemma map_snd_id:
  assumes "\<And>k v. (k, v) \<in> set d \<Longrightarrow> f k v = v"
  shows "map (\<lambda>(k, v). (k, f k v)) d = d"
  using assms by (induction d) auto

text \<open>
  Claim C8, as amended. On an open database, \<open>removeNormalUser\<close> raises nothing and changes
  nothing for a name that is in none of the normal-user, per-user-group, shadow and
  subordinate-id entry lists, in no group's member list, and is not a key of the
  secondary-group index; \<open>removeStandAloneGroup\<close> raises nothing and changes nothing for a
  name that is not in the stand-alone list and in no user's list of the index.
\<close>

theorem remove_absent_noop:
  assumes "valid s"
  shows "(username \<notin> set (normalUserList s) \<and> username \<notin> set (perUserGroupList s)
            \<and> username \<notin> set (shadowEntryList s) \<and> username \<notin> set (subUidEntryList s)
            \<and> username \<notin> set (subGidEntryList s)
            \<and> \<not> has_key (secondaryGroupsDict s) username
            \<and> (\<forall>(gname, entry) \<in> set (grpDict s). username \<notin> set (ulist_of (gr_mem entry)))
          \<longrightarrow> removeNormalUser username s = (None, s))
       \<and> (groupname \<notin> set (standAloneGroupList s)
            \<and> (\<forall>(uname, glist) \<in> set (secondaryGroupsDict s). groupname \<notin> set glist)
          \<longrightarrow> removeStandAloneGroup groupname s = (None, s))"
proof (intro conjI impI)
  assume a: "username \<notin> set (normalUserList s) \<and> username \<notin> set (perUserGroupList s)
            \<and> username \<notin> set (shadowEntryList s) \<and> username \<notin> set (subUidEntryList s)
            \<and> username \<notin> set (subGidEntryList s)
            \<and> \<not> has_key (secondaryGroupsDict s) username
            \<and> (\<forall>(gname, entry) \<in> set (grpDict s). username \<notin> set (ulist_of (gr_mem entry)))"
  have "map (\<lambda>(gname, entry). (gname, scrub_member username entry)) (grpDict s) = grpDict s"
    using a by (intro map_snd_id) (auto simp: scrub_member_def)
  then have m: "removeNormalUser_membership username s = ok s"
    using a by (simp add: removeNormalUser_membership_def)
  have "removeNormalUser_subgid username s = ok s" "removeNormalUser_subuid username s = ok s"
    "removeNormalUser_shadow username s = ok s" "removeNormalUser_group username s = ok s"
    "removeNormalUser_user username s = ok s"
    using a by (simp_all add: removeNormalUser_subgid_def removeNormalUser_subuid_def
        removeNormalUser_shadow_def removeNormalUser_group_def removeNormalUser_user_def)
  then show "removeNormalUser username s = (None, s)"
    using assms m by (simp add: removeNormalUser_def) (simp add: ok_def)
next
  assume a: "groupname \<notin> set (standAloneGroupList s)
            \<and> (\<forall>(uname, glist) \<in> set (secondaryGroupsDict s). groupname \<notin> set glist)"
  have "map (\<lambda>(uname, glist). (uname, if groupname \<in> set glist then remove1 groupname glist else glist))
           (secondaryGroupsDict s) = secondaryGroupsDict s"
    using a by (intro map_snd_id) auto
  then show "removeStandAloneGroup groupname s = (None, s)"
    using assms a by (simp add: removeStandAloneGroup_def ok_def)
qed

theorem remove_absent_noop_witness:
  "removeNormalUser ''carol'' db_member = (None, db_member)
   \<and> removeStandAloneGroup ''staff'' db_member = (None, db_member)"
proof -
  have v: "valid db_member" by (simp add: db_member_def db_alice_def db_base_def)
  have 1: "''carol'' \<notin> set (normalUserList db_member) \<and> ''carol'' \<notin> set (perUserGroupList db_member)
            \<and> ''carol'' \<notin> set (shadowEntryList db_member) \<and> ''carol'' \<notin> set (subUidEntryList db_member)
            \<and> ''carol'' \<notin> set (subGidEntryList db_member)
            \<and> \<not> has_key (secondaryGroupsDict db_member) ''carol''
            \<and> (\<forall>(gname, entry) \<in> set (grpDict db_member). ''carol'' \<notin> set (ulist_of (gr_mem entry)))"
    by (simp add: db_member_def db_alice_def db_base_def has_key_def mk_grp_def ulist_of_def)
  have 2: "''staff'' \<notin> set (standAloneGroupList db_member)
            \<and> (\<forall>(uname, glist) \<in> set (secondaryGroupsDict db_member). ''staff'' \<notin> set glist)"
    by (simp add: db_member_def db_alice_def db_base_def)
  show ?thesis
    using remove_absent_noop [OF v, of "''carol''" "''staff''"] 1 2 by blast
qed


text \<open>
  Claim C8 as stated fails: after \<open>removeStandAloneGroup("staff")\<close> on \<open>db_staff\<close> the name
  \<open>ghost\<close> is neither a normal user nor in any shadow, subordinate-id, per-user-group or
  member list, yet \<open>removeNormalUser("ghost")\<close> deletes its (empty) entry of the
  secondary-group index.
\<close>

theorem removeNormalUser_index_counterexample:
  "removeStandAloneGroup ''staff'' db_staff = (None, db_ghost)
   \<and> ''ghost'' \<notin> set (normalUserList db_ghost) \<and> ''ghost'' \<notin> set (perUserGroupList db_ghost)
   \<and> ''ghost'' \<notin> set (shadowEntryList db_ghost) \<and> ''ghost'' \<notin> set (subUidEntryList db_ghost)
   \<and> ''ghost'' \<notin> set (subGidEntryList db_ghost)
   \<and> ''ghost'' \<notin> set (concat (map (ulist_of \<circ> gr_mem \<circ> snd) (grpDict db_ghost)))
   \<and> fst (removeNormalUser ''ghost'' db_ghost) = None
   \<and> snd (removeNormalUser ''ghost'' db_ghost) \<noteq> db_ghost"
  by code_simp

subsection \<open>Member fields: \<open>split\<close>, \<open>join\<close> and the list of names\<close>

lemma split_not_Nil [simp]: "split d s \<noteq> []"
  by (induction s) (auto split: list.splits)

lemma split_no_sep: "w \<in> set (split d s) \<Longrightarrow> d \<notin> set w"
proof (induction s arbitrary: w)
  case Nil
  then show ?case by simp
next
  case (Cons c cs)
  then show ?case
    by (cases "split d cs") (auto split: if_splits)
qed

lemma split_word: "d \<notin> set w \<Longrightarrow> split d w = [w]"
  by (induction w) auto

lemma split_append_sep: "d \<notin> set w \<Longrightarrow> split d (w @ d # rest) = w # split d rest"
  by (induction w) auto

lemma split_join:
  assumes "xs \<noteq> []" and "\<forall>w\<in>set xs. c \<notin> set w"
  shows "split c (join [c] xs) = xs"
  using assms
proof (induction xs)
  case Nil
  then show ?case by simp
next
  case (Cons x xs)
  show ?case
  proof (cases xs)
    case Nil
    then show ?thesis using Cons.prems by (simp add: split_word)
  next
    case (Cons y ys)
    then have "split c (join [c] xs) = xs" using Cons.IH Cons.prems by simp
    then show ?thesis using Cons Cons.prems by (simp add: split_append_sep)
  qed
qed

lemma ulist_of_join:
  assumes "\<forall>w\<in>set xs. w \<noteq> [] \<and> CHR '','' \<notin> set w"
  shows "ulist_of (join '','' xs) = xs"
proof (cases xs)
  case Nil
  then show ?thesis by (simp add: ulist_of_def)
next
  case (Cons y ys)
  then have "split CHR '','' (join '','' xs) = xs"
    using assms by (intro split_join) auto
  moreover have "filter (\<lambda>x. x \<noteq> []) xs = xs"
    using assms by (intro filter_True) auto
  ultimately show ?thesis by (simp add: ulist_of_def)
qed

lemma ulist_of_clean: "w \<in> set (ulist_of mem) \<Longrightarrow> w \<noteq> [] \<and> CHR '','' \<notin> set w"
  by (auto simp: ulist_of_def dest: split_no_sep)

lemma ulist_of_join_ulist_of [simp]: "ulist_of (join '','' (ulist_of mem)) = ulist_of mem"
  by (intro ulist_of_join) (auto dest: ulist_of_clean)

subsection \<open>Joining and leaving a group\<close>

lemma remove1_append_last: "x \<notin> set xs \<Longrightarrow> remove1 x (xs @ [x]) = xs"
  by (induction xs) auto

lemma get_or_empty_update [simp]:
  "get_or_empty (AList.update k v d) k' = (if k' = k then v else get_or_empty d k')"
  by (simp add: get_or_empty_def update_conv')

lemma has_key_map_of: "has_key d k \<longleftrightarrow> map_of d k \<noteq> None"
  by (simp add: has_key_def map_of_eq_None_iff)


lemma join_result:
  assumes "groupname \<in> set (joinable s)" and "map_of (grpDict s) groupname = Some g"
    and "groupname \<notin> set (get_or_empty (secondaryGroupsDict s) username)"
    and "username \<notin> set (ulist_of (gr_mem g))"
  shows "\<exists>idx. modifyNormalUser_join username groupname s
           = (None, s\<lparr>secondaryGroupsDict := idx,
                       grpDict := AList.update groupname
                          (g\<lparr>gr_mem := join '','' (ulist_of (gr_mem g) @ [username])\<rparr>) (grpDict s)\<rparr>)
         \<and> map_of idx username = Some (get_or_empty (secondaryGroupsDict s) username @ [groupname])"
proof (cases "has_key (secondaryGroupsDict s) username")
  case True
  then obtain gl where gl: "map_of (secondaryGroupsDict s) username = Some gl"
    by (auto simp: has_key_map_of)
  then have ge: "get_or_empty (secondaryGroupsDict s) username = gl"
    by (simp add: get_or_empty_def)
  have "modifyNormalUser_join username groupname s
      = (None, s\<lparr>secondaryGroupsDict := AList.update username (gl @ [groupname]) (secondaryGroupsDict s),
                  grpDict := AList.update groupname
                     (g\<lparr>gr_mem := join '','' (ulist_of (gr_mem g) @ [username])\<rparr>) (grpDict s)\<rparr>)"
    using assms True ge by (simp add: modifyNormalUser_join_def ok_def Let_def)
  then show ?thesis using ge by (auto simp: update_conv')
next
  case False
  then have ge: "get_or_empty (secondaryGroupsDict s) username = []"
    by (simp add: get_or_empty_def has_key_map_of)
  have "modifyNormalUser_join username groupname s
      = (None, s\<lparr>secondaryGroupsDict :=
                    AList.update username [groupname] (AList.update username [] (secondaryGroupsDict s)),
                  grpDict := AList.update groupname
                     (g\<lparr>gr_mem := join '','' (ulist_of (gr_mem g) @ [username])\<rparr>) (grpDict s)\<rparr>)"
    using assms False by (simp add: modifyNormalUser_join_def ok_def Let_def)
  then show ?thesis using ge by (auto simp: update_conv')
qed


lemma leave_result:
  assumes "map_of (secondaryGroupsDict s) username = Some (gl @ [groupname])"
    and "groupname \<notin> set gl"
    and "map_of (grpDict s) groupname = Some g"
    and "ulist_of (gr_mem g) = ul @ [username]" and "username \<notin> set ul"
  shows "modifyNormalUser_leave username groupname s
           = (None, s\<lparr>secondaryGroupsDict := AList.update username gl (secondaryGroupsDict s),
                       grpDict := AList.update groupname (g\<lparr>gr_mem := join '','' ul\<rparr>) (grpDict s)\<rparr>)"
  using assms by (simp add: modifyNormalUser_leave_def ok_def Let_def remove1_append_last)

text \<open>
  Claim C9, as amended. On an open database where \<open>alice\<close> is a normal user, \<open>audio\<close> is in
  one of the joinable categories and has a record, and \<open>alice\<close> is not yet a member of
  \<open>audio\<close> (neither in her list of the index nor in the member field): joining and then
  leaving both succeed, her list of secondary groups is as before, the names in the member
  field of \<open>audio\<close> are as before, and the whole record is as before when its member field was
  a clean comma list.
\<close>

theorem join_then_leave_restores:
  assumes "valid s" and "''alice'' \<in> set (normalUserList s)"
    and "''audio'' \<in> set (joinable s)" and "map_of (grpDict s) ''audio'' = Some g"
    and "''audio'' \<notin> set (get_or_empty (secondaryGroupsDict s) ''alice'')"
    and "''alice'' \<notin> set (ulist_of (gr_mem g))"
  shows "\<exists>s1 s2 g2.
           modifyNormalUser encrypt ''alice'' MUSER_JOIN_GROUP [''audio''] s = (None, s1)
         \<and> modifyNormalUser encrypt ''alice'' MUSER_LEAVE_GROUP [''audio''] s1 = (None, s2)
         \<and> get_or_empty (secondaryGroupsDict s2) ''alice''
             = get_or_empty (secondaryGroupsDict s) ''alice''
         \<and> map_of (grpDict s2) ''audio'' = Some g2
         \<and> ulist_of (gr_mem g2) = ulist_of (gr_mem g)
         \<and> (gr_mem g = join '','' (ulist_of (gr_mem g)) \<longrightarrow> g2 = g)"
proof -
  let ?glist = "get_or_empty (secondaryGroupsDict s) ''alice''"
  let ?ulist = "ulist_of (gr_mem g)"
  define g1 where "g1 = g\<lparr>gr_mem := join '','' (?ulist @ [''alice''])\<rparr>"
  obtain idx where
    j: "modifyNormalUser_join ''alice'' ''audio'' s
          = (None, s\<lparr>secondaryGroupsDict := idx, grpDict := AList.update ''audio'' g1 (grpDict s)\<rparr>)"
    and idx: "map_of idx ''alice'' = Some (?glist @ [''audio''])"
    using join_result [OF assms(3,4,5,6)] unfolding g1_def by blast
  define s1 where "s1 = s\<lparr>secondaryGroupsDict := idx, grpDict := AList.update ''audio'' g1 (grpDict s)\<rparr>"
  have join: "modifyNormalUser encrypt ''alice'' MUSER_JOIN_GROUP [''audio''] s = (None, s1)"
    using assms(1,2) j unfolding s1_def
    by (simp add: modifyNormalUser_def MUSER_JOIN_GROUP_def MUSER_SET_PASSWORD_def
        MUSER_SET_SHELL_def)
  have u1: "ulist_of (gr_mem g1) = ?ulist @ [''alice'']"
    unfolding g1_def by (simp, intro ulist_of_join) (auto dest: ulist_of_clean)
  have m1: "map_of (secondaryGroupsDict s1) ''alice'' = Some (?glist @ [''audio''])"
    using idx by (simp add: s1_def)
  have mg1: "map_of (grpDict s1) ''audio'' = Some g1"
    by (simp add: s1_def update_conv')
  define g2 where "g2 = g1\<lparr>gr_mem := join '','' ?ulist\<rparr>"
  define s2 where "s2 = s1\<lparr>secondaryGroupsDict := AList.update ''alice'' ?glist (secondaryGroupsDict s1),
                            grpDict := AList.update ''audio'' g2 (grpDict s1)\<rparr>"
  have l: "modifyNormalUser_leave ''alice'' ''audio'' s1 = (None, s2)"
    unfolding s2_def g2_def by (rule leave_result [OF m1 assms(5) mg1 u1 assms(6)])
  have v1: "valid s1" "''alice'' \<in> set (normalUserList s1)"
    using assms(1,2) by (simp_all add: s1_def)
  have leave: "modifyNormalUser encrypt ''alice'' MUSER_LEAVE_GROUP [''audio''] s1 = (None, s2)"
    using v1 l
    by (simp add: modifyNormalUser_def MUSER_JOIN_GROUP_def MUSER_LEAVE_GROUP_def
        MUSER_SET_PASSWORD_def MUSER_SET_SHELL_def)
  have r1: "get_or_empty (secondaryGroupsDict s2) ''alice'' = ?glist"
    by (simp add: s2_def)
  have r2: "map_of (grpDict s2) ''audio'' = Some g2"
    by (simp add: s2_def update_conv')
  have r3: "ulist_of (gr_mem g2) = ?ulist"
    by (simp add: g2_def)
  have r4: "gr_mem g = join '','' ?ulist \<longrightarrow> g2 = g"
    by (simp add: g2_def g1_def)
  show ?thesis using join leave r1 r2 r3 r4 by blast
qed

theorem join_then_leave_restores_witness:
  "\<exists>s1 s2. modifyNormalUser example_encrypt ''alice'' MUSER_JOIN_GROUP [''audio''] db_alice = (None, s1)
     \<and> modifyNormalUser example_encrypt ''alice'' MUSER_LEAVE_GROUP [''audio''] s1 = (None, s2)
     \<and> get_or_empty (secondaryGroupsDict s2) ''alice'' = []
     \<and> map_of (grpDict s2) ''audio'' = Some (mk_grp ''audio'' 18 [])"
proof -
  have 1: "valid db_alice" "''alice'' \<in> set (normalUserList db_alice)"
    by (simp_all add: db_alice_def db_base_def)
  have 2: "''audio'' \<in> set (joinable db_alice)"
    by (simp add: joinable_def db_alice_def db_base_def)
  have 3: "map_of (grpDict db_alice) ''audio'' = Some (mk_grp ''audio'' 18 [])"
    by (simp add: db_alice_def db_base_def)
  have e: "get_or_empty (secondaryGroupsDict db_alice) ''alice'' = []"
    by (simp add: get_or_empty_def db_alice_def db_base_def)
  then have 4: "''audio'' \<notin> set (get_or_empty (secondaryGroupsDict db_alice) ''alice'')" by simp
  have c: "gr_mem (mk_grp ''audio'' 18 []) = join '','' (ulist_of (gr_mem (mk_grp ''audio'' 18 [])))"
    by (simp add: mk_grp_def ulist_of_def)
  have 5: "''alice'' \<notin> set (ulist_of (gr_mem (mk_grp ''audio'' 18 [])))"
    by (simp add: mk_grp_def ulist_of_def)
  show ?thesis
    using join_then_leave_restores [OF 1 2 3 4 5, of example_encrypt] e c by metis
qed

text \<open>
  Claim C9 as stated fails on \<open>db_member\<close>, where \<open>alice\<close> already belongs to \<open>audio\<close>: the
  join changes nothing, the leave removes her, and neither her secondary groups nor the
  member field are what they were before the join.
\<close>

theorem join_then_leave_counterexample:
  "fst (modifyNormalUser example_encrypt ''alice'' MUSER_JOIN_GROUP [''audio''] db_member) = None
   \<and> fst (modifyNormalUser example_encrypt ''alice'' MUSER_LEAVE_GROUP [''audio'']
           (snd (modifyNormalUser example_encrypt ''alice'' MUSER_JOIN_GROUP [''audio''] db_member)))
       = None
   \<and> get_or_empty (secondaryGroupsDict db_member) ''alice'' = [''audio'']
   \<and> get_or_empty (secondaryGroupsDict
         (snd (modifyNormalUser example_encrypt ''alice'' MUSER_LEAVE_GROUP [''audio'']
           (snd (modifyNormalUser example_encrypt ''alice'' MUSER_JOIN_GROUP [''audio''] db_member)))))
         ''alice'' = []
   \<and> map_option gr_mem (map_of (grpDict db_member) ''audio'') = Some ''alice''
   \<and> map_option gr_mem (map_of (grpDict
         (snd (modifyNormalUser example_encrypt ''alice'' MUSER_LEAVE_GROUP [''audio'']
           (snd (modifyNormalUser example_encrypt ''alice'' MUSER_JOIN_GROUP [''audio''] db_member)))))
         ''audio'') = Some []"
  by code_simp

subsection \<open>Failing mutation calls\<close>

lemma outcome_simps [simp]:
  "ok s = (None, s)" "raise e s = (Some e, s)"
  by (simp_all add: ok_def raise_def)

lemma andThen_Some:
  "andThen r f = (Some e, s') \<longleftrightarrow>
     r = (Some e, s') \<or> (\<exists>s1. r = (None, s1) \<and> f s1 = (Some e, s'))"
  by (cases r) (auto simp: andThen_def split: option.splits)

lemma rm_steps_KeyError:
  "removeNormalUser_subgid u s = (Some e, s') \<Longrightarrow> e = KeyError"
  "removeNormalUser_subuid u s = (Some e, s') \<Longrightarrow> e = KeyError"
  "removeNormalUser_shadow u s = (Some e, s') \<Longrightarrow> e = KeyError"
  "removeNormalUser_membership u s = (Some e, s') \<Longrightarrow> e = KeyError"
  "removeNormalUser_group u s = (Some e, s') \<Longrightarrow> e = KeyError"
  "removeNormalUser_user u s = (Some e, s') \<Longrightarrow> e = KeyError"
  by (auto simp: removeNormalUser_subgid_def removeNormalUser_subuid_def
      removeNormalUser_shadow_def removeNormalUser_membership_def removeNormalUser_group_def
      removeNormalUser_user_def Let_def split: if_splits)

lemma removeNormalUser_fail:
  assumes "removeNormalUser u s = (Some e, s')" and "e \<noteq> KeyError"
  shows "s' = s"
proof (cases "valid s")
  case False
  then show ?thesis using assms by (simp add: removeNormalUser_def)
next
  case True
  then have "False"
    using assms by (auto simp: removeNormalUser_def andThen_Some dest: rm_steps_KeyError)
  then show ?thesis ..
qed

lemma join_fail:
  assumes "modifyNormalUser_join u g s = (Some e, s')" and "e \<noteq> KeyError"
  shows "s' = s"
  using assms by (auto simp: modifyNormalUser_join_def Let_def split: if_splits option.splits)

lemma leave_fail:
  assumes "modifyNormalUser_leave u g s = (Some e, s')" and "e \<noteq> KeyError"
  shows "s' = s"
  using assms by (auto simp: modifyNormalUser_leave_def Let_def split: if_splits option.splits)

lemma modifyNormalUser_fail:
  assumes "modifyNormalUser encrypt u op kargs s = (Some e, s')"
    and "e \<noteq> KeyError \<or> op = MUSER_SET_PASSWORD"
  shows "s' = s"
  using assms
  by (auto simp: modifyNormalUser_def MUSER_SET_PASSWORD_def MUSER_SET_SHELL_def
      MUSER_JOIN_GROUP_def MUSER_LEAVE_GROUP_def
      split: if_splits list.splits option.splits sum.splits dest: join_fail leave_fail)

lemma addNormalUser_fail:
  assumes "addNormalUser encrypt u pw s = (Some e, s')" and "encrypt pw \<noteq> Inl e"
  shows "s' = s"
  using assms
  by (auto simp: addNormalUser_def Let_def split: if_splits option.splits sum.splits)

lemma addStandAloneGroup_fail:
  assumes "addStandAloneGroup g s = (Some e, s')"
  shows "s' = s"
  using assms by (auto simp: addStandAloneGroup_def split: if_splits sum.splits)

lemma removeStandAloneGroup_fail:
  assumes "removeStandAloneGroup g s = (Some e, s')" and "e \<noteq> KeyError"
  shows "s' = s"
  using assms by (auto simp: removeStandAloneGroup_def Let_def split: if_splits)

text \<open>
  Claim C6, as amended. A failing mutation call leaves the database as it was in each of
  these cases: \<open>addNormalUser\<close> when the exception is not the one raised by the password hash;
  \<open>addStandAloneGroup\<close>; \<open>modifyNormalUser\<close> with the operation \<open>MUSER_SET_PASSWORD\<close>; and
  \<open>removeNormalUser\<close>, \<open>modifyNormalUser\<close> (any operation) and \<open>removeStandAloneGroup\<close> when the
  exception is not \<open>KeyError\<close>.
\<close>

theorem failed_mutation_unchanged:
  "(encrypt password \<noteq> Inl e \<longrightarrow>
      addNormalUser encrypt username password s = (Some e, s') \<longrightarrow> s' = s)
   \<and> (addStandAloneGroup groupname s = (Some e, s') \<longrightarrow> s' = s)
   \<and> (modifyNormalUser encrypt username MUSER_SET_PASSWORD kargs s = (Some e, s') \<longrightarrow> s' = s)
   \<and> (e \<noteq> KeyError \<longrightarrow>
         (removeNormalUser username s = (Some e, s') \<longrightarrow> s' = s)
       \<and> (modifyNormalUser encrypt username op kargs s = (Some e, s') \<longrightarrow> s' = s)
       \<and> (removeStandAloneGroup groupname s = (Some e, s') \<longrightarrow> s' = s))"
proof (intro conjI impI)
  assume "encrypt password \<noteq> Inl e"
    and "addNormalUser encrypt username password s = (Some e, s')"
  then show "s' = s" using addNormalUser_fail by blast
next
  assume "addStandAloneGroup groupname s = (Some e, s')"
  then show "s' = s" by (rule addStandAloneGroup_fail)
next
  assume "modifyNormalUser encrypt username MUSER_SET_PASSWORD kargs s = (Some e, s')"
  then show "s' = s" by (rule modifyNormalUser_fail) simp
next
  assume "e \<noteq> KeyError" and "removeNormalUser username s = (Some e, s')"
  then show "s' = s" by (intro removeNormalUser_fail)
next
  assume "e \<noteq> KeyError" and "modifyNormalUser encrypt username op kargs s = (Some e, s')"
  then show "s' = s" using modifyNormalUser_fail by blast
next
  assume "e \<noteq> KeyError" and "removeStandAloneGroup groupname s = (Some e, s')"
  then show "s' = s" by (intro removeStandAloneGroup_fail)
qed

theorem failed_mutation_unchanged_witness:
  "addNormalUser example_encrypt ''alice'' ''secret'' db_alice = (Some AssertionError, db_alice)
   \<and> addStandAloneGroup ''audio'' db_alice = (Some AssertionError, db_alice)
   \<and> modifyNormalUser example_encrypt ''alice'' MUSER_SET_PASSWORD [] db_alice
       = (Some AssertionError, db_alice)
   \<and> removeNormalUser ''alice'' (db_alice\<lparr>valid := False\<rparr>)
       = (Some AssertionError, db_alice\<lparr>valid := False\<rparr>)
   \<and> modifyNormalUser example_encrypt ''alice'' MUSER_SET_SHELL [''/bin/sh''] db_alice
       = (Some AssertionError, db_alice)
   \<and> removeStandAloneGroup ''audio'' (db_alice\<lparr>valid := False\<rparr>)
       = (Some AssertionError, db_alice\<lparr>valid := False\<rparr>)"
proof -
  let ?closed = "db_alice\<lparr>valid := False\<rparr>"
  have ne: "AssertionError \<noteq> KeyError" by simp
  have h: "example_encrypt ''secret'' \<noteq> Inl AssertionError"
    by (simp add: example_encrypt_def)
  have a: "fst (addNormalUser example_encrypt ''alice'' ''secret'' db_alice) = Some AssertionError"
    by code_simp
  have b: "fst (addStandAloneGroup ''audio'' db_alice) = Some AssertionError"
    by code_simp
  have c: "fst (modifyNormalUser example_encrypt ''alice'' MUSER_SET_PASSWORD [] db_alice)
      = Some AssertionError"
    by code_simp
  have d: "fst (removeNormalUser ''alice'' ?closed) = Some AssertionError"
    by code_simp
  have e: "fst (modifyNormalUser example_encrypt ''alice'' MUSER_SET_SHELL [''/bin/sh''] db_alice)
      = Some AssertionError"
    by code_simp
  have f: "fst (removeStandAloneGroup ''audio'' ?closed) = Some AssertionError"
    by code_simp
  have pair: "fst r = Some AssertionError \<Longrightarrow> r = (Some AssertionError, snd r)" for r :: outcome
    by (cases r) simp
  have 1: "addNormalUser example_encrypt ''alice'' ''secret'' db_alice = (Some AssertionError, db_alice)"
    using failed_mutation_unchanged [of example_encrypt "''secret''" AssertionError "''alice''"
        db_alice "snd (addNormalUser example_encrypt ''alice'' ''secret'' db_alice)"]
      pair [OF a] h by simp
  have 2: "addStandAloneGroup ''audio'' db_alice = (Some AssertionError, db_alice)"
    using failed_mutation_unchanged [of example_encrypt "''secret''" AssertionError "''alice''"
        db_alice "snd (addStandAloneGroup ''audio'' db_alice)" "''audio''"]
      pair [OF b] by simp
  have 3: "modifyNormalUser example_encrypt ''alice'' MUSER_SET_PASSWORD [] db_alice
       = (Some AssertionError, db_alice)"
    using failed_mutation_unchanged [of example_encrypt "''secret''" AssertionError "''alice''"
        db_alice "snd (modifyNormalUser example_encrypt ''alice'' MUSER_SET_PASSWORD [] db_alice)"
        "''audio''" "[]"]
      pair [OF c] by simp
  have 4: "removeNormalUser ''alice'' ?closed = (Some AssertionError, ?closed)"
    using failed_mutation_unchanged [of example_encrypt "''secret''" AssertionError "''alice''"
        ?closed "snd (removeNormalUser ''alice'' ?closed)"]
      pair [OF d] ne by simp
  have 5: "modifyNormalUser example_encrypt ''alice'' MUSER_SET_SHELL [''/bin/sh''] db_alice
       = (Some AssertionError, db_alice)"
    using failed_mutation_unchanged [of example_encrypt "''secret''" AssertionError "''alice''"
        db_alice
        "snd (modifyNormalUser example_encrypt ''alice'' MUSER_SET_SHELL [''/bin/sh''] db_alice)"
        "''audio''" "[''/bin/sh'']" MUSER_SET_SHELL]
      pair [OF e] ne by simp
  have 6: "removeStandAloneGroup ''audio'' ?closed = (Some AssertionError, ?closed)"
    using failed_mutation_unchanged [of example_encrypt "''secret''" AssertionError "''alice''"
        ?closed "snd (removeStandAloneGroup ''audio'' ?closed)" "''audio''"]
      pair [OF f] ne by simp
  from 1 2 3 4 5 6 show ?thesis by (intro conjI)
qed


text \<open>
  Claim C6 as stated fails, in each of the cases left out above, on states reached from
  loaded databases:
  \<^item> after \<open>removeNormalUser("bob")\<close> on \<open>db_two\<close> the index still lists \<open>bob\<close> for \<open>alice\<close>, and
    \<open>modifyNormalUser("alice", MUSER_LEAVE_GROUP, "bob")\<close> removes it before
    \<open>self.grpDict["bob"]\<close> raises \<open>KeyError\<close>;
  \<^item> after \<open>removeNormalUser("alice")\<close> on \<open>db_dupsub\<close> the subordinate-gid entry list still
    holds \<open>alice\<close>, and a second \<open>removeNormalUser("alice")\<close> removes it before \<open>del\<close> raises
    \<open>KeyError\<close>;
  \<^item> after \<open>removeStandAloneGroup("staff")\<close> on \<open>db_dupgrp\<close> the stand-alone list still holds
    \<open>staff\<close>: a second \<open>removeStandAloneGroup("staff")\<close> removes it from the list, and
    \<open>modifyNormalUser("alice", MUSER_JOIN_GROUP, "staff")\<close> adds it to the index, before
    \<open>KeyError\<close>;
  \<^item> \<open>addNormalUser\<close> with a secret that the hash rejects has stored the user and group
    records when the hash raises.
\<close>

theorem failed_mutation_counterexample:
  "fst (removeNormalUser ''bob'' db_two) = None
   \<and> fst (modifyNormalUser example_encrypt ''alice'' MUSER_LEAVE_GROUP [''bob'']
            (snd (removeNormalUser ''bob'' db_two))) = Some KeyError
   \<and> snd (modifyNormalUser example_encrypt ''alice'' MUSER_LEAVE_GROUP [''bob'']
            (snd (removeNormalUser ''bob'' db_two))) \<noteq> snd (removeNormalUser ''bob'' db_two)
   \<and> fst (removeNormalUser ''alice'' db_dupsub) = None
   \<and> fst (removeNormalUser ''alice'' (snd (removeNormalUser ''alice'' db_dupsub))) = Some KeyError
   \<and> snd (removeNormalUser ''alice'' (snd (removeNormalUser ''alice'' db_dupsub)))
       \<noteq> snd (removeNormalUser ''alice'' db_dupsub)
   \<and> fst (removeStandAloneGroup ''staff'' db_dupgrp) = None
   \<and> fst (removeStandAloneGroup ''staff'' (snd (removeStandAloneGroup ''staff'' db_dupgrp)))
       = Some KeyError
   \<and> snd (removeStandAloneGroup ''staff'' (snd (removeStandAloneGroup ''staff'' db_dupgrp)))
       \<noteq> snd (removeStandAloneGroup ''staff'' db_dupgrp)
   \<and> fst (modifyNormalUser example_encrypt ''alice'' MUSER_JOIN_GROUP [''staff'']
            (snd (removeStandAloneGroup ''staff'' db_dupgrp))) = Some KeyError
   \<and> snd (modifyNormalUser example_encrypt ''alice'' MUSER_JOIN_GROUP [''staff'']
            (snd (removeStandAloneGroup ''staff'' db_dupgrp)))
       \<noteq> snd (removeStandAloneGroup ''staff'' db_dupgrp)
   \<and> fst (addNormalUser example_encrypt ''bob'' [CHR 0x00] db_alice) = Some ValueError
   \<and> snd (addNormalUser example_encrypt ''bob'' [CHR 0x00] db_alice) \<noteq> db_alice"
  by code_simp

subsection \<open>Stage 2 after \<open>_fixate\<close>\<close>

lemma andThen_None [simp]: "andThen (None, s) f = f s"
  by (simp add: andThen_def)

lemma andThen_eq_None:
  "andThen r f = (None, s') \<longleftrightarrow> (\<exists>s1. r = (None, s1) \<and> f s1 = (None, s'))"
  by (cases r) (auto simp: andThen_def split: option.splits)

lemma firstError_None: "firstError chk xs = None \<longleftrightarrow> (\<forall>x\<in>set xs. chk x = None)"
  by (induction xs) (auto split: option.splits)

lemma orElse_None: "orElse a b = None \<longleftrightarrow> a = None \<and> b = None"
  by (auto simp: orElse_def split: option.splits)

lemma comprehension_InrD: "comprehension f xs = Inr ys \<Longrightarrow> map f xs = map Inr ys"
proof (induction xs arbitrary: ys)
  case Nil
  then show ?case by simp
next
  case (Cons x xs)
  from Cons.prems obtain y zs where "f x = Inr y" "comprehension f xs = Inr zs" "ys = y # zs"
    by (simp split: sum.splits)
  then show ?case using Cons.IH [of zs] by simp
qed

lemma comprehension_InrI: "map f xs = map Inr ys \<Longrightarrow> comprehension f xs = Inr ys"
proof (induction xs arbitrary: ys)
  case Nil
  then show ?case by simp
next
  case (Cons x xs)
  from Cons.prems obtain y zs where ys: "ys = y # zs" by (cases ys) auto
  with Cons.prems have "f x = Inr y" "map f xs = map Inr zs" by simp_all
  then show ?case using Cons.IH [of zs] ys by simp
qed

lemma andThen_Some_raise [simp]: "andThen (Some e, s) f = (Some e, s)"
  by (simp add: andThen_def)

text \<open>
  Effect of a loop that replaces the user record of each listed name by \<open>f\<close> of it, as the
  loops over \<open>set_gecos\<close> and \<open>set_shell\<close> do.
\<close>

lemma forEach_update_pwd:
  assumes body: "\<And>u s. body u s =
        (case map_of (pwdDict s) u of
           None \<Rightarrow> (Some KeyError, s)
         | Some p \<Rightarrow> (None, s\<lparr>pwdDict := AList.update u (f p) (pwdDict s)\<rparr>))"
    and idem: "\<And>p. f (f p) = f p"
    and run: "forEach body xs s = (None, s1)"
  shows "\<exists>d. s1 = s\<lparr>pwdDict := d\<rparr>
       \<and> (\<forall>u\<in>set xs. map_of (pwdDict s) u \<noteq> None)
       \<and> (\<forall>u. map_of d u
              = (if u \<in> set xs then map_option f (map_of (pwdDict s) u) else map_of (pwdDict s) u))"
  using run
proof (induction xs arbitrary: s)
  case Nil
  then have "s1 = s\<lparr>pwdDict := pwdDict s\<rparr>" by simp
  then show ?case by (intro exI [of _ "pwdDict s"]) simp
next
  case (Cons x xs)
  have "map_of (pwdDict s) x \<noteq> None"
  proof
    assume "map_of (pwdDict s) x = None"
    then have "body x s = (Some KeyError, s)" by (simp add: body)
    then show False using Cons.prems by simp
  qed
  then obtain p where p: "map_of (pwdDict s) x = Some p" by blast
  let ?s = "s\<lparr>pwdDict := AList.update x (f p) (pwdDict s)\<rparr>"
  have step: "body x s = (None, ?s)" using p by (simp add: body)
  have "forEach body xs ?s = (None, s1)"
    using Cons.prems step by simp
  from Cons.IH [OF this] obtain d where
    d1: "s1 = ?s\<lparr>pwdDict := d\<rparr>"
    and d2: "\<forall>u\<in>set xs. map_of (pwdDict ?s) u \<noteq> None"
    and d3: "\<forall>u. map_of d u
        = (if u \<in> set xs then map_option f (map_of (pwdDict ?s) u) else map_of (pwdDict ?s) u)"
    by blast
  have 1: "s1 = s\<lparr>pwdDict := d\<rparr>" using d1 by simp
  have 2: "\<forall>u\<in>set (x # xs). map_of (pwdDict s) u \<noteq> None"
  proof
    fix u assume "u \<in> set (x # xs)"
    then show "map_of (pwdDict s) u \<noteq> None"
      using d2 p by (cases "u = x") (auto simp: update_conv' split: if_splits)
  qed
  have 3: "\<forall>u. map_of d u
              = (if u \<in> set (x # xs) then map_option f (map_of (pwdDict s) u)
                 else map_of (pwdDict s) u)"
  proof
    fix u
    show "map_of d u
              = (if u \<in> set (x # xs) then map_option f (map_of (pwdDict s) u)
                 else map_of (pwdDict s) u)"
      using p d3 [THEN spec, of u] by (cases "u = x") (simp_all add: update_conv' idem)
  qed
  from 1 2 3 show ?case by (intro exI [of _ d] conjI)
qed

lemma forEach_set_gecos:
  assumes "forEach set_gecos xs s = (None, s1)"
  shows "\<exists>d. s1 = s\<lparr>pwdDict := d\<rparr>
       \<and> (\<forall>u\<in>set xs. map_of (pwdDict s) u \<noteq> None)
       \<and> (\<forall>u. map_of d u
              = (if u \<in> set xs then map_option (\<lambda>p. p\<lparr>pw_gecos := []\<rparr>) (map_of (pwdDict s) u)
                 else map_of (pwdDict s) u))"
  by (rule forEach_update_pwd [OF _ _ assms]) (simp_all add: set_gecos_def split: option.splits)

lemma forEach_set_shell:
  assumes "forEach set_shell xs s = (None, s1)"
  shows "\<exists>d. s1 = s\<lparr>pwdDict := d\<rparr>
       \<and> (\<forall>u\<in>set xs. map_of (pwdDict s) u \<noteq> None)
       \<and> (\<forall>u. map_of d u
              = (if u \<in> set xs
                 then map_option (\<lambda>p. p\<lparr>pw_shell := ''/sbin/nologin''\<rparr>) (map_of (pwdDict s) u)
                 else map_of (pwdDict s) u))"
  by (rule forEach_update_pwd [OF _ _ assms]) (simp_all add: set_shell_def split: option.splits)

lemma forEach_del_shadow:
  "\<exists>d. forEach del_shadow xs s = (None, s\<lparr>shDict := d\<rparr>)
       \<and> (\<forall>u. map_of d u = (if u \<in> set xs then None else map_of (shDict s) u))"
proof (induction xs arbitrary: s)
  case Nil
  show ?case by (intro exI [of _ "shDict s"]) simp
next
  case (Cons x xs)
  let ?s = "s\<lparr>shDict := AList.delete x (shDict s)\<rparr>"
  have step: "del_shadow x s = (None, ?s)"
    by (simp add: del_shadow_def has_key_def delete_id)
  from Cons.IH [of ?s] obtain d where
    d1: "forEach del_shadow xs ?s = (None, ?s\<lparr>shDict := d\<rparr>)"
    and d2: "\<forall>u. map_of d u = (if u \<in> set xs then None else map_of (shDict ?s) u)"
    by blast
  have 1: "forEach del_shadow (x # xs) s = (None, s\<lparr>shDict := d\<rparr>)"
    using step d1 by simp
  have 2: "\<forall>u. map_of d u = (if u \<in> set (x # xs) then None else map_of (shDict s) u)"
    using d2 by (simp add: delete_conv')
  from 1 2 show ?case by (intro exI [of _ d] conjI)
qed

text \<open>The sort by precomputed keys.\<close>

lemma set_sort_by_keys:
  assumes "length ks = length xs"
  shows "set (sort_by_keys ks xs) = set xs"
proof -
  have "set (sort_by_keys ks xs) = snd ` set (zip ks xs)" by (simp add: sort_by_keys_def)
  also have "\<dots> = set (map snd (zip ks xs))" by simp
  also have "\<dots> = set xs" using assms by (simp only: map_snd_zip)
  finally show ?thesis .
qed

lemma zip_keys:
  assumes "map f xs = map Inr ks" and "(k, x) \<in> set (zip ks xs)"
  shows "f x = Inr k"
proof -
  from assms(2) obtain i where i: "i < length ks" "i < length xs" "ks ! i = k" "xs ! i = x"
    by (auto simp: in_set_zip)
  have "map f xs ! i = map Inr ks ! i" using assms(1) by simp
  then show ?thesis using i by simp
qed

lemma sort_by_keys_lookup:
  assumes "map f xs = map Inr ks"
  shows "map f (sort_by_keys ks xs) = map Inr (map fst (sort_key fst (zip ks xs)))"
proof -
  have "f (snd z) = Inr (fst z)" if "z \<in> set (sort_key fst (zip ks xs))" for z
    using that zip_keys [OF assms, of "fst z" "snd z"] by simp
  then show ?thesis by (simp add: sort_by_keys_def)
qed


text \<open>The blocks of \<open>_fixate\<close>, one by one: the state after a block that raises nothing.\<close>

lemma fixate_systemUsers_result:
  assumes "fixate_systemUsers s = (None, s1)"
  shows "\<exists>d. s1 = s\<lparr>systemUserList := stdSystemUserList, pwdDict := d\<rparr>
       \<and> (\<forall>u\<in>set stdSystemUserList. map_of (pwdDict s) u \<noteq> None)
       \<and> (\<forall>u. map_of d u
              = (if u \<in> set stdSystemUserList
                 then map_option (\<lambda>p. p\<lparr>pw_gecos := []\<rparr>) (map_of (pwdDict s) u)
                 else map_of (pwdDict s) u))"
proof -
  let ?s = "s\<lparr>systemUserList := stdSystemUserList\<rparr>"
  have "forEach set_gecos stdSystemUserList ?s = (None, s1)"
    using assms by (simp add: fixate_systemUsers_def Let_def split: if_splits)
  from forEach_set_gecos [OF this] obtain d where
    "s1 = ?s\<lparr>pwdDict := d\<rparr>"
    "\<forall>u\<in>set stdSystemUserList. map_of (pwdDict ?s) u \<noteq> None"
    "\<forall>u. map_of d u
        = (if u \<in> set stdSystemUserList
           then map_option (\<lambda>p. p\<lparr>pw_gecos := []\<rparr>) (map_of (pwdDict ?s) u)
           else map_of (pwdDict ?s) u)"
    by blast
  then show ?thesis by (intro exI [of _ d]) simp
qed

lemma fixate_normalUsers_result:
  assumes "fixate_normalUsers s = (None, s1)"
  shows "\<exists>ks d. map (lookup_uid s) (normalUserList s) = map Inr ks
       \<and> s1 = s\<lparr>normalUserList := sort_by_keys ks (normalUserList s), pwdDict := d\<rparr>
       \<and> (\<forall>u\<in>set (normalUserList s). map_of (pwdDict s) u \<noteq> None)
       \<and> (\<forall>u. map_of d u
              = (if u \<in> set (normalUserList s)
                 then map_option (\<lambda>p. p\<lparr>pw_gecos := []\<rparr>) (map_of (pwdDict s) u)
                 else map_of (pwdDict s) u))"
proof -
  from assms obtain ks where ks: "comprehension (lookup_uid s) (normalUserList s) = Inr ks"
    by (cases "comprehension (lookup_uid s) (normalUserList s)")
      (simp_all add: fixate_normalUsers_def)
  then have m: "map (lookup_uid s) (normalUserList s) = map Inr ks"
    by (rule comprehension_InrD)
  then have "length (map (lookup_uid s) (normalUserList s)) = length (map Inr ks)" by simp
  then have len: "length ks = length (normalUserList s)" by simp
  let ?s = "s\<lparr>normalUserList := sort_by_keys ks (normalUserList s)\<rparr>"
  have "forEach set_gecos (sort_by_keys ks (normalUserList s)) ?s = (None, s1)"
    using assms ks by (simp add: fixate_normalUsers_def Let_def)
  from forEach_set_gecos [OF this] obtain d where
    "s1 = ?s\<lparr>pwdDict := d\<rparr>"
    "\<forall>u\<in>set (sort_by_keys ks (normalUserList s)). map_of (pwdDict ?s) u \<noteq> None"
    "\<forall>u. map_of d u
        = (if u \<in> set (sort_by_keys ks (normalUserList s))
           then map_option (\<lambda>p. p\<lparr>pw_gecos := []\<rparr>) (map_of (pwdDict ?s) u)
           else map_of (pwdDict ?s) u)"
    by blast
  then show ?thesis
    using m by (intro exI [of _ ks] exI [of _ d]) (simp add: set_sort_by_keys [OF len])
qed

lemma fixate_softwareUsers_result:
  assumes "fixate_softwareUsers s = (None, s1)"
  shows "\<exists>d sh. s1 = s\<lparr>pwdDict := d, shDict := sh\<rparr>
       \<and> (\<forall>u\<in>set (softwareUserList s). map_of (pwdDict s) u \<noteq> None)
       \<and> (\<forall>u. map_of d u
              = (if u \<in> set (softwareUserList s)
                 then map_option (\<lambda>p. p\<lparr>pw_shell := ''/sbin/nologin''\<rparr>) (map_of (pwdDict s) u)
                 else map_of (pwdDict s) u))
       \<and> (\<forall>u. map_of sh u = (if u \<in> set (softwareUserList s) then None else map_of (shDict s) u))"
proof -
  from assms obtain s0 where
    a: "forEach set_shell (softwareUserList s) s = (None, s0)"
    and b: "forEach del_shadow (softwareUserList s0) s0 = (None, s1)"
    by (auto simp: fixate_softwareUsers_def andThen_eq_None)
  from forEach_set_shell [OF a] obtain d where d:
    "s0 = s\<lparr>pwdDict := d\<rparr>"
    "\<forall>u\<in>set (softwareUserList s). map_of (pwdDict s) u \<noteq> None"
    "\<forall>u. map_of d u
        = (if u \<in> set (softwareUserList s)
           then map_option (\<lambda>p. p\<lparr>pw_shell := ''/sbin/nologin''\<rparr>) (map_of (pwdDict s) u)
           else map_of (pwdDict s) u)"
    by blast
  from forEach_del_shadow [of "softwareUserList s0" s0] obtain sh where sh:
    "forEach del_shadow (softwareUserList s0) s0 = (None, s0\<lparr>shDict := sh\<rparr>)"
    "\<forall>u. map_of sh u = (if u \<in> set (softwareUserList s0) then None else map_of (shDict s0) u)"
    by blast
  have "s1 = s0\<lparr>shDict := sh\<rparr>" using b sh(1) by simp
  then have "s1 = s\<lparr>pwdDict := d, shDict := sh\<rparr>" using d(1) by simp
  moreover have "\<forall>u. map_of sh u
      = (if u \<in> set (softwareUserList s) then None else map_of (shDict s) u)"
    using sh(2) d(1) by simp
  ultimately show ?thesis using d(2,3) by (intro exI [of _ d] exI [of _ sh]) simp
qed


lemma fixate_systemGroups_result:
  "fixate_systemGroups s = (None, s1) \<Longrightarrow> s1 = s\<lparr>systemGroupList := stdSystemGroupList\<rparr>"
  by (simp add: fixate_systemGroups_def split: if_splits)

lemma fixate_perUserGroups_result:
  "fixate_perUserGroups s = (None, s1) \<Longrightarrow> s1 = s\<lparr>perUserGroupList := normalUserList s\<rparr>"
  by (simp add: fixate_perUserGroups_def split: if_splits)

lemma comprehension_key_pw_gid: "comprehension (key_pw_gid s) xs = Inr ks \<Longrightarrow> xs = []"
  by (cases xs) (auto simp: key_pw_gid_def split: option.splits sum.splits)

lemma fixate_standAloneGroups_result:
  assumes "fixate_standAloneGroups s = (None, s1)"
  shows "s1 = s \<and> standAloneGroupList s = []"
proof -
  from assms obtain ks where ks: "comprehension (key_pw_gid s) (standAloneGroupList s) = Inr ks"
    by (cases "comprehension (key_pw_gid s) (standAloneGroupList s)")
      (simp_all add: fixate_standAloneGroups_def)
  then have e: "standAloneGroupList s = []" by (rule comprehension_key_pw_gid)
  then have "ks = []" using ks by simp
  then have "s1 = s\<lparr>standAloneGroupList := standAloneGroupList s\<rparr>"
    using assms ks e by (simp add: fixate_standAloneGroups_def sort_by_keys_def)
  then show ?thesis using e by simp
qed

lemma fixate_root_result:
  "fixate_root s = (None, s1) \<Longrightarrow>
     s1 = s\<lparr>secondaryGroupsDict := AList.delete ''root'' (secondaryGroupsDict s),
            grpDict := map (\<lambda>(gname, entry). (gname, scrub_member ''root'' entry)) (grpDict s)\<rparr>"
  by (auto simp: fixate_root_def Let_def has_key_def delete_id split: if_splits)

lemma fixate_members_result:
  "fixate_members s = (None, s1) \<Longrightarrow>
     s1 = s\<lparr>grpDict := map (\<lambda>(gname, g). (gname, g\<lparr>gr_mem := join '','' (ulist_of (gr_mem g))\<rparr>))
                          (grpDict s)\<rparr>"
  by (simp add: fixate_members_def)

lemma fixate_shadow_result:
  "fixate_shadow s = (None, s1) \<Longrightarrow>
     s1 = s\<lparr>shadowEntryList := systemUserList s @ normalUserList s,
            shDict := keep_keys (systemUserList s @ normalUserList s) (shDict s)\<rparr>"
  by (simp add: fixate_shadow_def Let_def split: if_splits)


text \<open>Subordinate ranges: the entries that pass the range check of stage 2.\<close>

lemma subId_None:
  "0 < bs \<Longrightarrow> verifyStage2_subId rmin rmax bs (k, obj) = None \<longleftrightarrow>
     rmin \<le> start obj \<and> start obj < rmax \<and> (start obj - rmin) mod bs = 0 \<and> count obj = bs"
  by (auto simp: verifyStage2_subId_def)

lemma set_update_subset: "set (AList.update k v d) \<subseteq> insert (k, v) (set d)"
  by (induction d) auto

lemma fold_max_aligned:
  assumes "0 < bs" and "\<forall>obj\<in>set objs. rmin \<le> start obj \<and> (start obj - rmin) mod bs = 0 \<and> count obj = bs"
    and "rmin \<le> m" and "(m - rmin) mod bs = 0"
  shows "rmin \<le> fold (\<lambda>obj m. max (start obj + count obj) m) objs m
       \<and> (fold (\<lambda>obj m. max (start obj + count obj) m) objs m - rmin) mod bs = 0"
  using assms(2-)
proof (induction objs arbitrary: m)
  case Nil
  then show ?case by simp
next
  case (Cons obj objs)
  let ?m = "max (start obj + count obj) m"
  have o: "rmin \<le> start obj" "(start obj - rmin) mod bs = 0" "count obj = bs"
    using Cons.prems(1) by simp_all
  have "(start obj + bs - rmin) mod bs = ((start obj - rmin) + bs) mod bs" by (simp add: algebra_simps)
  also have "\<dots> = 0" using o(2) by simp
  finally have al: "(start obj + count obj - rmin) mod bs = 0" using o(3) by simp
  have 1: "rmin \<le> ?m" using Cons.prems(2) by simp
  have 2: "(?m - rmin) mod bs = 0" using al Cons.prems(3) by (simp add: max_def)
  have 3: "\<forall>obj\<in>set objs. rmin \<le> start obj \<and> (start obj - rmin) mod bs = 0 \<and> count obj = bs"
    using Cons.prems(1) by simp
  show ?case using Cons.IH [OF 3 1 2] by simp
qed

lemma max_end_aligned:
  assumes "0 < bs" and "\<forall>it\<in>set d. verifyStage2_subId rmin rmax bs it = None"
  shows "rmin \<le> max_end rmin d \<and> (max_end rmin d - rmin) mod bs = 0"
proof -
  have "\<forall>obj\<in>set (map snd d). rmin \<le> start obj \<and> (start obj - rmin) mod bs = 0 \<and> count obj = bs"
  proof
    fix obj assume "obj \<in> set (map snd d)"
    then obtain k where "(k, obj) \<in> set d" by auto
    then have "verifyStage2_subId rmin rmax bs (k, obj) = None" using assms(2) by blast
    then show "rmin \<le> start obj \<and> (start obj - rmin) mod bs = 0 \<and> count obj = bs"
      using assms(1) by (simp add: subId_None)
  qed
  from fold_max_aligned [OF assms(1) this, of rmin] show ?thesis
    by (simp add: max_end_def)
qed

lemma add_missing_valid:
  assumes "add_missing rmax bs xs m d = (None, d')" and "0 < bs"
    and "rmin \<le> m" and "(m - rmin) mod bs = 0"
    and "\<forall>it\<in>set d. verifyStage2_subId rmin rmax bs it = None"
  shows "\<forall>it\<in>set d'. verifyStage2_subId rmin rmax bs it = None"
  using assms(1,3,4,5)
proof (induction xs arbitrary: m d)
  case Nil
  then show ?case by simp
next
  case (Cons uname rest)
  show ?case
  proof (cases "has_key d uname")
    case True
    then have "add_missing rmax bs rest m d = (None, d')" using Cons.prems(1) by simp
    from Cons.IH [OF this Cons.prems(2,3,4)] show ?thesis .
  next
    case False
    let ?new = "\<lparr>name = uname, start = m, count = bs\<rparr>"
    let ?d = "AList.update uname ?new d"
    have lt: "m < rmax" using Cons.prems(1) False by (simp split: if_splits)
    have run: "add_missing rmax bs rest (m + bs) ?d = (None, d')"
      using Cons.prems(1) False lt by simp
    have new: "verifyStage2_subId rmin rmax bs (uname, ?new) = None"
      using lt Cons.prems(2,3) assms(2) by (simp add: subId_None)
    have all: "\<forall>it\<in>set ?d. verifyStage2_subId rmin rmax bs it = None"
      using new Cons.prems(4) set_update_subset [of uname ?new d] by auto
    have 1: "rmin \<le> m + bs" using Cons.prems(2) assms(2) by simp
    have "(m + bs - rmin) mod bs = ((m - rmin) + bs) mod bs" by (simp add: algebra_simps)
    then have 2: "(m + bs - rmin) mod bs = 0" using Cons.prems(3) by simp
    from Cons.IH [OF run 1 2 all] show ?thesis .
  qed
qed

lemma fixate_subUid_result:
  assumes "fixate_subUid s = (None, s1)"
  shows "\<exists>d. s1 = s\<lparr>subUidEntryList := normalUserList s @ softwareUserList s, subUidDict := d\<rparr>
       \<and> add_missing (subUidMax s) (subUidCount s) (normalUserList s @ softwareUserList s)
            (max_end (subUidMin s) (keep_keys (normalUserList s @ softwareUserList s) (subUidDict s)))
            (keep_keys (normalUserList s @ softwareUserList s) (subUidDict s)) = (None, d)"
  using assms
  by (auto simp: fixate_subUid_def Let_def split: prod.splits option.splits)

lemma fixate_subGid_result:
  assumes "fixate_subGid s = (None, s1)"
  shows "\<exists>d. s1 = s\<lparr>subGidEntryList := subUidEntryList s, subGidDict := d\<rparr>
       \<and> add_missing (subGidMax s) (subGidCount s) (subUidEntryList s)
            (max_end (subGidMin s) (keep_keys (subUidEntryList s) (subGidDict s)))
            (keep_keys (subUidEntryList s) (subGidDict s)) = (None, d)"
  using assms
  by (auto simp: fixate_subGid_def Let_def split: prod.splits option.splits)


lemma map_of_keep_keys:
  "map_of (keep_keys xs d) u = (if u \<in> set xs then map_of d u else None)"
  by (induction d) (auto simp: keep_keys_def)

lemma map_of_map_values:
  "map_of (map (\<lambda>(k, v). (k, f v)) d) u = map_option f (map_of d u)"
  by (induction d) auto

lemma set_delete: "set (AList.delete k d) = {it \<in> set d. fst it \<noteq> k}"
  by (induction d) auto

lemma slice_append_left [simp]: "slice (xs @ ys) 0 (length xs) = xs"
  by (simp add: slice_def)

lemma slice_append_right [simp]: "slice (xs @ ys) (length xs) (length ys) = ys"
  by (simp add: slice_def)

lemma fixate_states:
  assumes "fixate s = (None, s')"
  shows "\<exists>s1 s2 s3 s4 s5 s6 s7 s8 s9 s10.
      fixate_systemUsers s = (None, s1) \<and> fixate_normalUsers s1 = (None, s2)
    \<and> fixate_softwareUsers s2 = (None, s3) \<and> fixate_systemGroups s3 = (None, s4)
    \<and> fixate_perUserGroups s4 = (None, s5) \<and> fixate_standAloneGroups s5 = (None, s6)
    \<and> fixate_root s6 = (None, s7) \<and> fixate_members s7 = (None, s8)
    \<and> fixate_shadow s8 = (None, s9) \<and> fixate_subUid s9 = (None, s10)
    \<and> fixate_subGid s10 = (None, s')"
  using assms unfolding fixate_def andThen_eq_None by blast



lemma fixate_result:
  assumes "fixate s = (None, s')"
  shows "\<exists>ks d1 d2 d3 sh3 du dg.
      (\<forall>u\<in>set stdSystemUserList. map_of (pwdDict s) u \<noteq> None)
    \<and> (\<forall>u. map_of d1 u
            = (if u \<in> set stdSystemUserList
               then map_option (\<lambda>p. p\<lparr>pw_gecos := []\<rparr>) (map_of (pwdDict s) u)
               else map_of (pwdDict s) u))
    \<and> map (lookup_uid (s\<lparr>pwdDict := d1\<rparr>)) (normalUserList s) = map Inr ks
    \<and> (\<forall>u\<in>set (normalUserList s). map_of d1 u \<noteq> None)
    \<and> (\<forall>u. map_of d2 u
            = (if u \<in> set (normalUserList s)
               then map_option (\<lambda>p. p\<lparr>pw_gecos := []\<rparr>) (map_of d1 u)
               else map_of d1 u))
    \<and> (\<forall>u\<in>set (softwareUserList s). map_of d2 u \<noteq> None)
    \<and> (\<forall>u. map_of d3 u
            = (if u \<in> set (softwareUserList s)
               then map_option (\<lambda>p. p\<lparr>pw_shell := ''/sbin/nologin''\<rparr>) (map_of d2 u)
               else map_of d2 u))
    \<and> (\<forall>u. map_of sh3 u = (if u \<in> set (softwareUserList s) then None else map_of (shDict s) u))
    \<and> set (systemUserList s) = set stdSystemUserList
    \<and> standAloneGroupList s = []
    \<and> add_missing (subUidMax s) (subUidCount s)
          (sort_by_keys ks (normalUserList s) @ softwareUserList s)
          (max_end (subUidMin s)
             (keep_keys (sort_by_keys ks (normalUserList s) @ softwareUserList s) (subUidDict s)))
          (keep_keys (sort_by_keys ks (normalUserList s) @ softwareUserList s) (subUidDict s))
        = (None, du)
    \<and> add_missing (subGidMax s) (subGidCount s)
          (sort_by_keys ks (normalUserList s) @ softwareUserList s)
          (max_end (subGidMin s)
             (keep_keys (sort_by_keys ks (normalUserList s) @ softwareUserList s) (subGidDict s)))
          (keep_keys (sort_by_keys ks (normalUserList s) @ softwareUserList s) (subGidDict s))
        = (None, dg)
    \<and> s' = s\<lparr>systemUserList := stdSystemUserList,
              normalUserList := sort_by_keys ks (normalUserList s),
              pwdDict := d3,
              systemGroupList := stdSystemGroupList,
              perUserGroupList := sort_by_keys ks (normalUserList s),
              secondaryGroupsDict := AList.delete ''root'' (secondaryGroupsDict s),
              grpDict := map (\<lambda>(gname, g). (gname, g\<lparr>gr_mem := join '','' (ulist_of (gr_mem g))\<rparr>))
                  (map (\<lambda>(gname, entry). (gname, scrub_member ''root'' entry)) (grpDict s)),
              shadowEntryList := stdSystemUserList @ sort_by_keys ks (normalUserList s),
              shDict := keep_keys (stdSystemUserList @ sort_by_keys ks (normalUserList s)) sh3,
              subUidEntryList := sort_by_keys ks (normalUserList s) @ softwareUserList s,
              subUidDict := du,
              subGidEntryList := sort_by_keys ks (normalUserList s) @ softwareUserList s,
              subGidDict := dg\<rparr>"
proof -
  from fixate_states [OF assms] obtain s1 s2 s3 s4 s5 s6 s7 s8 s9 s10 where
    r1: "fixate_systemUsers s = (None, s1)" and r2: "fixate_normalUsers s1 = (None, s2)"
    and r3: "fixate_softwareUsers s2 = (None, s3)" and r4: "fixate_systemGroups s3 = (None, s4)"
    and r5: "fixate_perUserGroups s4 = (None, s5)" and r6: "fixate_standAloneGroups s5 = (None, s6)"
    and r7: "fixate_root s6 = (None, s7)" and r8: "fixate_members s7 = (None, s8)"
    and r9: "fixate_shadow s8 = (None, s9)" and r10: "fixate_subUid s9 = (None, s10)"
    and r11: "fixate_subGid s10 = (None, s')"
    by blast
  have sys_set: "set (systemUserList s) = set stdSystemUserList"
    using r1 by (simp add: fixate_systemUsers_def split: if_splits)
  from fixate_systemUsers_result [OF r1] obtain d1 where
    e1: "s1 = s\<lparr>systemUserList := stdSystemUserList, pwdDict := d1\<rparr>"
    and p1: "\<forall>u\<in>set stdSystemUserList. map_of (pwdDict s) u \<noteq> None"
    and q1: "\<forall>u. map_of d1 u
              = (if u \<in> set stdSystemUserList
                 then map_option (\<lambda>p. p\<lparr>pw_gecos := []\<rparr>) (map_of (pwdDict s) u)
                 else map_of (pwdDict s) u)"
    by blast
  from fixate_normalUsers_result [OF r2] obtain ks d2 where
    k2: "map (lookup_uid s1) (normalUserList s1) = map Inr ks"
    and e2: "s2 = s1\<lparr>normalUserList := sort_by_keys ks (normalUserList s1), pwdDict := d2\<rparr>"
    and p2: "\<forall>u\<in>set (normalUserList s1). map_of (pwdDict s1) u \<noteq> None"
    and q2: "\<forall>u. map_of d2 u
              = (if u \<in> set (normalUserList s1)
                 then map_option (\<lambda>p. p\<lparr>pw_gecos := []\<rparr>) (map_of (pwdDict s1) u)
                 else map_of (pwdDict s1) u)"
    by blast
  from fixate_softwareUsers_result [OF r3] obtain d3 sh3 where
    e3: "s3 = s2\<lparr>pwdDict := d3, shDict := sh3\<rparr>"
    and p3: "\<forall>u\<in>set (softwareUserList s2). map_of (pwdDict s2) u \<noteq> None"
    and q3: "\<forall>u. map_of d3 u
              = (if u \<in> set (softwareUserList s2)
                 then map_option (\<lambda>p. p\<lparr>pw_shell := ''/sbin/nologin''\<rparr>) (map_of (pwdDict s2) u)
                 else map_of (pwdDict s2) u)"
    and h3: "\<forall>u. map_of sh3 u = (if u \<in> set (softwareUserList s2) then None else map_of (shDict s2) u)"
    by blast
  note e4 = fixate_systemGroups_result [OF r4]
  note e5 = fixate_perUserGroups_result [OF r5]
  from fixate_standAloneGroups_result [OF r6] have e6: "s6 = s5" and sa: "standAloneGroupList s5 = []"
    by simp_all
  note e7 = fixate_root_result [OF r7]
  note e8 = fixate_members_result [OF r8]
  note e9 = fixate_shadow_result [OF r9]
  from fixate_subUid_result [OF r10] obtain du where
    e10: "s10 = s9\<lparr>subUidEntryList := normalUserList s9 @ softwareUserList s9, subUidDict := du\<rparr>"
    and a10: "add_missing (subUidMax s9) (subUidCount s9) (normalUserList s9 @ softwareUserList s9)
            (max_end (subUidMin s9) (keep_keys (normalUserList s9 @ softwareUserList s9) (subUidDict s9)))
            (keep_keys (normalUserList s9 @ softwareUserList s9) (subUidDict s9)) = (None, du)"
    by blast
  from fixate_subGid_result [OF r11] obtain dg where
    e11: "s' = s10\<lparr>subGidEntryList := subUidEntryList s10, subGidDict := dg\<rparr>"
    and a11: "add_missing (subGidMax s10) (subGidCount s10) (subUidEntryList s10)
            (max_end (subGidMin s10) (keep_keys (subUidEntryList s10) (subGidDict s10)))
            (keep_keys (subUidEntryList s10) (subGidDict s10)) = (None, dg)"
    by blast
  note eqs = e10 e9 e8 e7 e6 e5 e4 e3 e2 e1
  have c1: "map (lookup_uid (s\<lparr>pwdDict := d1\<rparr>)) (normalUserList s) = map Inr ks"
  proof -
    have "lookup_uid s1 = lookup_uid (s\<lparr>pwdDict := d1\<rparr>)"
      by (rule ext) (simp add: e1 lookup_uid_def)
    then show ?thesis using k2 by (simp add: e1)
  qed
  have c2: "\<forall>u\<in>set (normalUserList s). map_of d1 u \<noteq> None" using p2 by (simp add: e1)
  have c3: "\<forall>u. map_of d2 u
            = (if u \<in> set (normalUserList s)
               then map_option (\<lambda>p. p\<lparr>pw_gecos := []\<rparr>) (map_of d1 u)
               else map_of d1 u)"
    using q2 by (simp add: e1)
  have c4: "\<forall>u\<in>set (softwareUserList s). map_of d2 u \<noteq> None" using p3 by (simp add: e2 e1)
  have c5: "\<forall>u. map_of d3 u
            = (if u \<in> set (softwareUserList s)
               then map_option (\<lambda>p. p\<lparr>pw_shell := ''/sbin/nologin''\<rparr>) (map_of d2 u)
               else map_of d2 u)"
    using q3 by (simp add: e2 e1)
  have c6: "\<forall>u. map_of sh3 u = (if u \<in> set (softwareUserList s) then None else map_of (shDict s) u)"
    using h3 by (simp add: e2 e1)
  have c7: "standAloneGroupList s = []" using sa by (simp add: e5 e4 e3 e2 e1)
  have c8: "add_missing (subUidMax s) (subUidCount s)
          (sort_by_keys ks (normalUserList s) @ softwareUserList s)
          (max_end (subUidMin s)
             (keep_keys (sort_by_keys ks (normalUserList s) @ softwareUserList s) (subUidDict s)))
          (keep_keys (sort_by_keys ks (normalUserList s) @ softwareUserList s) (subUidDict s))
        = (None, du)"
    using a10 by (simp add: e9 e8 e7 e6 e5 e4 e3 e2 e1)
  have c9: "add_missing (subGidMax s) (subGidCount s)
          (sort_by_keys ks (normalUserList s) @ softwareUserList s)
          (max_end (subGidMin s)
             (keep_keys (sort_by_keys ks (normalUserList s) @ softwareUserList s) (subGidDict s)))
          (keep_keys (sort_by_keys ks (normalUserList s) @ softwareUserList s) (subGidDict s))
        = (None, dg)"
    using a11 by (simp add: eqs)
  have E: "s' = s\<lparr>systemUserList := stdSystemUserList,
              normalUserList := sort_by_keys ks (normalUserList s),
              pwdDict := d3,
              systemGroupList := stdSystemGroupList,
              perUserGroupList := sort_by_keys ks (normalUserList s),
              secondaryGroupsDict := AList.delete ''root'' (secondaryGroupsDict s),
              grpDict := map (\<lambda>(gname, g). (gname, g\<lparr>gr_mem := join '','' (ulist_of (gr_mem g))\<rparr>))
                  (map (\<lambda>(gname, entry). (gname, scrub_member ''root'' entry)) (grpDict s)),
              shadowEntryList := stdSystemUserList @ sort_by_keys ks (normalUserList s),
              shDict := keep_keys (stdSystemUserList @ sort_by_keys ks (normalUserList s)) sh3,
              subUidEntryList := sort_by_keys ks (normalUserList s) @ softwareUserList s,
              subUidDict := du,
              subGidEntryList := sort_by_keys ks (normalUserList s) @ softwareUserList s,
              subGidDict := dg\<rparr>"
    by (simp add: e11 eqs)
  from p1 q1 c1 c2 c3 c4 c5 c6 sys_set c7 c8 c9 E show ?thesis
    by (intro exI [of _ ks] exI [of _ d1] exI [of _ d2] exI [of _ d3] exI [of _ sh3]
        exI [of _ du] exI [of _ dg] conjI)
qed

text \<open>
  Claim C4, as amended. Let a database pass stage 1 and let \<open>_fixate\<close> run on it without an
  exception. If moreover every software user's uid is below \<open>uidMin\<close>, every software group
  has a record with a gid below \<open>gidMin\<close>, no user other than \<open>root\<close> that is in a user
  category is listed for a deprecated group, both block sizes are positive, and the
  subordinate entries of the normal and software users already pass the range check of
  stage 2, then stage 2 passes on the result of \<open>_fixate\<close> when the group-hash file is empty.
\<close>

theorem fixate_then_stage2:
  assumes st1: "verifyStage1 s = None"
    and fx: "fixate s = (None, s')"
    and soft_uid: "\<forall>u\<in>set (softwareUserList s). \<forall>p. map_of (pwdDict s) u = Some p \<longrightarrow> pw_uid p < uidMin s"
    and soft_gid: "\<forall>g\<in>set (softwareGroupList s). \<exists>e. map_of (grpDict s) g = Some e \<and> gr_gid e < gidMin s"
    and depr: "\<forall>(u, glist)\<in>set (secondaryGroupsDict s).
        u \<noteq> ''root'' \<and> u \<in> set (systemUserList s @ normalUserList s @ softwareUserList s)
        \<longrightarrow> set glist \<inter> set (deprecatedGroupList s) = {}"
    and cnt: "0 < subUidCount s" "0 < subGidCount s"
    and subuid: "\<forall>it\<in>set (subUidDict s). fst it \<in> set (normalUserList s @ softwareUserList s)
        \<longrightarrow> verifyStage2_subId (subUidMin s) (subUidMax s) (subUidCount s) it = None"
    and subgid: "\<forall>it\<in>set (subGidDict s). fst it \<in> set (normalUserList s @ softwareUserList s)
        \<longrightarrow> verifyStage2_subId (subGidMin s) (subGidMax s) (subGidCount s) it = None"
  shows "verifyStage2 (Some []) s' = None"
proof -
  from fixate_result [OF fx] obtain ks d1 d2 d3 sh3 du dg where
    p1: "\<forall>u\<in>set stdSystemUserList. map_of (pwdDict s) u \<noteq> None"
    and q1: "\<forall>u. map_of d1 u
            = (if u \<in> set stdSystemUserList
               then map_option (\<lambda>p. p\<lparr>pw_gecos := []\<rparr>) (map_of (pwdDict s) u)
               else map_of (pwdDict s) u)"
    and k2: "map (lookup_uid (s\<lparr>pwdDict := d1\<rparr>)) (normalUserList s) = map Inr ks"
    and p2: "\<forall>u\<in>set (normalUserList s). map_of d1 u \<noteq> None"
    and q2: "\<forall>u. map_of d2 u
            = (if u \<in> set (normalUserList s)
               then map_option (\<lambda>p. p\<lparr>pw_gecos := []\<rparr>) (map_of d1 u)
               else map_of d1 u)"
    and p3: "\<forall>u\<in>set (softwareUserList s). map_of d2 u \<noteq> None"
    and q3: "\<forall>u. map_of d3 u
            = (if u \<in> set (softwareUserList s)
               then map_option (\<lambda>p. p\<lparr>pw_shell := ''/sbin/nologin''\<rparr>) (map_of d2 u)
               else map_of d2 u)"
    and h3: "\<forall>u. map_of sh3 u = (if u \<in> set (softwareUserList s) then None else map_of (shDict s) u)"
    and sys_set: "set (systemUserList s) = set stdSystemUserList"
    and sa: "standAloneGroupList s = []"
    and a10: "add_missing (subUidMax s) (subUidCount s)
          (sort_by_keys ks (normalUserList s) @ softwareUserList s)
          (max_end (subUidMin s)
             (keep_keys (sort_by_keys ks (normalUserList s) @ softwareUserList s) (subUidDict s)))
          (keep_keys (sort_by_keys ks (normalUserList s) @ softwareUserList s) (subUidDict s))
        = (None, du)"
    and a11: "add_missing (subGidMax s) (subGidCount s)
          (sort_by_keys ks (normalUserList s) @ softwareUserList s)
          (max_end (subGidMin s)
             (keep_keys (sort_by_keys ks (normalUserList s) @ softwareUserList s) (subGidDict s)))
          (keep_keys (sort_by_keys ks (normalUserList s) @ softwareUserList s) (subGidDict s))
        = (None, dg)"
    and E: "s' = s\<lparr>systemUserList := stdSystemUserList,
              normalUserList := sort_by_keys ks (normalUserList s),
              pwdDict := d3,
              systemGroupList := stdSystemGroupList,
              perUserGroupList := sort_by_keys ks (normalUserList s),
              secondaryGroupsDict := AList.delete ''root'' (secondaryGroupsDict s),
              grpDict := map (\<lambda>(gname, g). (gname, g\<lparr>gr_mem := join '','' (ulist_of (gr_mem g))\<rparr>))
                  (map (\<lambda>(gname, entry). (gname, scrub_member ''root'' entry)) (grpDict s)),
              shadowEntryList := stdSystemUserList @ sort_by_keys ks (normalUserList s),
              shDict := keep_keys (stdSystemUserList @ sort_by_keys ks (normalUserList s)) sh3,
              subUidEntryList := sort_by_keys ks (normalUserList s) @ softwareUserList s,
              subUidDict := du,
              subGidEntryList := sort_by_keys ks (normalUserList s) @ softwareUserList s,
              subGidDict := dg\<rparr>"
    by blast
  define N where "N = sort_by_keys ks (normalUserList s)"
  have len: "length ks = length (normalUserList s)"
  proof -
    have "length (map (lookup_uid (s\<lparr>pwdDict := d1\<rparr>)) (normalUserList s)) = length (map Inr ks)"
      using k2 by simp
    then show ?thesis by simp
  qed
  have setN: "set N = set (normalUserList s)"
    unfolding N_def by (rule set_sort_by_keys [OF len])
  have F_sys: "systemUserList s' = stdSystemUserList" by (simp add: E)
  have F_norm: "normalUserList s' = N" by (simp add: E N_def)
  have F_soft: "softwareUserList s' = softwareUserList s" by (simp add: E)
  have F_pwd: "pwdDict s' = d3" by (simp add: E)
  have F_sh: "shDict s' = keep_keys (stdSystemUserList @ N) sh3" by (simp add: E N_def)
  have F_sa: "standAloneGroupList s' = []" using sa by (simp add: E)
  have F_sg: "softwareGroupList s' = softwareGroupList s" by (simp add: E)
  have F_dep: "deprecatedGroupList s' = deprecatedGroupList s" by (simp add: E)
  have F_grp: "grpDict s' = map (\<lambda>(gname, g). (gname, g\<lparr>gr_mem := join '','' (ulist_of (gr_mem g))\<rparr>))
        (map (\<lambda>(gname, entry). (gname, scrub_member ''root'' entry)) (grpDict s))"
    by (simp add: E)
  have F_idx: "secondaryGroupsDict s' = AList.delete ''root'' (secondaryGroupsDict s)"
    by (simp add: E)
  have F_shl: "shadowEntryList s' = stdSystemUserList @ N" by (simp add: E N_def)
  have F_sul: "subUidEntryList s' = N @ softwareUserList s" by (simp add: E N_def)
  have F_sgl: "subGidEntryList s' = N @ softwareUserList s" by (simp add: E N_def)
  have F_sud: "subUidDict s' = du" by (simp add: E)
  have F_sgd: "subGidDict s' = dg" by (simp add: E)
  have F_cfg: "uidMin s' = uidMin s" "gidMin s' = gidMin s"
    "subUidMin s' = subUidMin s" "subUidMax s' = subUidMax s" "subUidCount s' = subUidCount s"
    "subGidMin s' = subGidMin s" "subGidMax s' = subGidMax s" "subGidCount s' = subGidCount s"
    by (simp_all add: E)
  text \<open>The user records after the three loops.\<close>
  have K1: "\<exists>p. map_of d3 u = Some p \<and> pw_gecos p = []" if "u \<in> set stdSystemUserList" for u
    using p1 that by (auto simp: q1 q2 q3)
  have K2: "\<exists>p. map_of d3 u = Some p \<and> pw_gecos p = []" if "u \<in> set (normalUserList s)" for u
    using p2 that by (auto simp: q2 q3)
  have K4: "map_option pw_uid (map_of d3 u) = map_option pw_uid (map_of d1 u)" for u
    by (simp add: q2 q3 option.map_comp comp_def)
  have K4': "map_option pw_uid (map_of d1 u) = map_option pw_uid (map_of (pwdDict s) u)" for u
    by (simp add: q1 option.map_comp comp_def)
  have K3: "\<exists>p. map_of d3 u = Some p \<and> pw_uid p < uidMin s \<and> pw_shell p = ''/sbin/nologin''"
    if u: "u \<in> set (softwareUserList s)" for u
  proof -
    from p3 u obtain p2 where p2: "map_of d2 u = Some p2" by blast
    then have 3: "map_of d3 u = Some (p2\<lparr>pw_shell := ''/sbin/nologin''\<rparr>)" using u by (simp add: q3)
    have "map_option pw_uid (map_of (pwdDict s) u) = Some (pw_uid p2)"
      using K4 [of u] K4' [of u] 3 by simp
    then obtain p0 where "map_of (pwdDict s) u = Some p0" "pw_uid p0 = pw_uid p2" by auto
    then have "pw_uid p2 < uidMin s" using soft_uid u by auto
    then show ?thesis using 3 by simp
  qed
  have cg: "check_gecos s' u = None" if "\<exists>p. map_of d3 u = Some p \<and> pw_gecos p = []" for u
    using that by (auto simp: check_gecos_def F_pwd)
  text \<open>The checks of stage 2, in order.\<close>
  have A: "verifyStage2_systemUsers s' = None"
    using K1 cg by (simp add: verifyStage2_systemUsers_def orElse_None firstError_None F_sys)
  have lk: "lookup_uid s' u = lookup_uid (s\<lparr>pwdDict := d1\<rparr>) u" for u
    using K4 [of u] by (cases "map_of d3 u"; cases "map_of d1 u") (simp_all add: lookup_uid_def F_pwd)
  define K where "K = map fst (sort_key fst (zip ks (normalUserList s)))"
  have "lookup_uid s' = lookup_uid (s\<lparr>pwdDict := d1\<rparr>)" by (rule ext) (rule lk)
  then have "map (lookup_uid s') (normalUserList s) = map Inr ks"
    using k2 by simp
  then have "map (lookup_uid s') N = map Inr K"
    unfolding N_def K_def by (rule sort_by_keys_lookup)
  then have compK: "comprehension (lookup_uid s') N = Inr K" by (rule comprehension_InrI)
  have "sorted K" unfolding K_def by (rule sorted_sort_key)
  then have sortK: "sort K = K" by (rule sorted_sort_id)
  have B: "verifyStage2_normalUsers s' = None"
    using K2 cg setN
    by (simp add: verifyStage2_normalUsers_def F_norm compK sortK orElse_None firstError_None)
  have C: "verifyStage2_softwareUser s' u = None" if u: "u \<in> set (softwareUserList s)" for u
  proof -
    from K3 [OF u] obtain p where p: "map_of d3 u = Some p" "pw_uid p < uidMin s"
      "pw_shell p = ''/sbin/nologin''" by blast
    have "map_of (shDict s') u = None" using u by (simp add: F_sh map_of_keep_keys h3)
    then have "\<not> has_key (shDict s') u" by (simp add: has_key_map_of)
    then show ?thesis using p by (simp add: verifyStage2_softwareUser_def F_pwd F_cfg)
  qed
  have D: "verifyStage2_standAloneGroups s' = None"
    by (simp add: verifyStage2_standAloneGroups_def F_sa)
  have E': "verifyStage2_softwareGroup s' g = None" if g: "g \<in> set (softwareGroupList s)" for g
  proof -
    from soft_gid g obtain e where e: "map_of (grpDict s) g = Some e" "gr_gid e < gidMin s" by blast
    let ?g1 = "scrub_member ''root'' e"
    let ?g2 = "?g1\<lparr>gr_mem := join '','' (ulist_of (gr_mem ?g1))\<rparr>"
    have "map_of (map (\<lambda>(gname, entry). (gname, scrub_member ''root'' entry)) (grpDict s)) g
        = Some ?g1"
      using e(1) by (simp only: map_of_map_values option.map)
    then have m: "map_of (grpDict s') g = Some ?g2"
      by (simp only: F_grp map_of_map_values option.map)
    have "gr_gid ?g2 = gr_gid e" by (simp add: scrub_member_def Let_def)
    then show ?thesis
      using e(2) by (simp only: verifyStage2_softwareGroup_def m F_cfg option.case) simp
  qed
  have F: "\<not> has_key (secondaryGroupsDict s') ''root''"
    by (simp add: F_idx has_key_def set_delete image_iff)
  have G: "verifyStage2_secondary s' item = None" if it: "item \<in> set (secondaryGroupsDict s')" for item
  proof -
    obtain u gl where item: "item = (u, gl)" by (cases item)
    from it have in_s: "(u, gl) \<in> set (secondaryGroupsDict s)" and nr: "u \<noteq> ''root''"
      by (simp_all add: F_idx set_delete item)
    show ?thesis
    proof (cases "u \<in> set (stdSystemUserList @ N @ softwareUserList s)")
      case False
      then show ?thesis by (simp add: verifyStage2_secondary_def item F_sys F_norm F_soft)
    next
      case True
      then have "u \<in> set (systemUserList s @ normalUserList s @ softwareUserList s)"
        using sys_set setN by simp
      then have "set gl \<inter> set (deprecatedGroupList s) = {}" using depr in_s nr by blast
      then have "\<forall>gname\<in>set gl. gname \<notin> set (deprecatedGroupList s)" by blast
      then show ?thesis
        by (simp add: verifyStage2_secondary_def item firstError_None F_dep)
    qed
  qed
  have H: "verifyStage2_member item = None" if "item \<in> set (grpDict s')" for item
    using that by (auto simp: F_grp verifyStage2_member_def)
  have I: "verifyStage2_shadow s' = None"
    by (simp add: verifyStage2_shadow_def F_sys F_norm F_shl)
  have J: "verifyStage2_gshadow (Some []) = None"
    by (simp add: verifyStage2_gshadow_def)
  have K': "verifyStage2_subUidList s' = None"
    by (simp add: verifyStage2_subUidList_def F_norm F_soft F_sul)
  have kept: "it \<in> set d \<and> fst it \<in> set (normalUserList s @ softwareUserList s)"
    if "it \<in> set (keep_keys (N @ softwareUserList s) d)" for it and d :: "(string \<times> SubUidGidEntry) list"
  proof -
    have "it \<in> set d \<and> fst it \<in> set (N @ softwareUserList s)"
      using that by (auto simp: keep_keys_def)
    then show ?thesis using setN by simp
  qed
  have keptU: "\<forall>it\<in>set (keep_keys (N @ softwareUserList s) (subUidDict s)).
      verifyStage2_subId (subUidMin s) (subUidMax s) (subUidCount s) it = None"
  proof
    fix it assume "it \<in> set (keep_keys (N @ softwareUserList s) (subUidDict s))"
    from kept [OF this] show "verifyStage2_subId (subUidMin s) (subUidMax s) (subUidCount s) it = None"
      using subuid by blast
  qed
  have keptG: "\<forall>it\<in>set (keep_keys (N @ softwareUserList s) (subGidDict s)).
      verifyStage2_subId (subGidMin s) (subGidMax s) (subGidCount s) it = None"
  proof
    fix it assume "it \<in> set (keep_keys (N @ softwareUserList s) (subGidDict s))"
    from kept [OF this] show "verifyStage2_subId (subGidMin s) (subGidMax s) (subGidCount s) it = None"
      using subgid by blast
  qed
  note mU = max_end_aligned [OF cnt(1) keptU]
  note mG = max_end_aligned [OF cnt(2) keptG]
  have a10N: "add_missing (subUidMax s) (subUidCount s) (N @ softwareUserList s)
          (max_end (subUidMin s) (keep_keys (N @ softwareUserList s) (subUidDict s)))
          (keep_keys (N @ softwareUserList s) (subUidDict s)) = (None, du)"
    using a10 by (simp only: N_def)
  have a11N: "add_missing (subGidMax s) (subGidCount s) (N @ softwareUserList s)
          (max_end (subGidMin s) (keep_keys (N @ softwareUserList s) (subGidDict s)))
          (keep_keys (N @ softwareUserList s) (subGidDict s)) = (None, dg)"
    using a11 by (simp only: N_def)
  have L: "\<forall>it\<in>set du. verifyStage2_subId (subUidMin s) (subUidMax s) (subUidCount s) it = None"
    by (rule add_missing_valid [OF a10N cnt(1) mU [THEN conjunct1] mU [THEN conjunct2] keptU])
  have N': "\<forall>it\<in>set dg. verifyStage2_subId (subGidMin s) (subGidMax s) (subGidCount s) it = None"
    by (rule add_missing_valid [OF a11N cnt(2) mG [THEN conjunct1] mG [THEN conjunct2] keptG])
  have c3: "firstError (verifyStage2_softwareUser s') (softwareUserList s') = None"
    using C by (simp add: firstError_None F_soft)
  have c5: "firstError (verifyStage2_softwareGroup s') (softwareGroupList s') = None"
    using E' by (simp add: firstError_None F_sg)
  have c6: "(if has_key (secondaryGroupsDict s') ''root'' then Some PgsFormatError else None) = None"
    using F by simp
  have c7: "firstError (verifyStage2_secondary s') (secondaryGroupsDict s') = None"
    using G by (simp add: firstError_None)
  have c8: "firstError verifyStage2_member (grpDict s') = None"
    using H by (simp add: firstError_None)
  have c12: "firstError (verifyStage2_subId (subUidMin s') (subUidMax s') (subUidCount s'))
      (subUidDict s') = None"
    using L by (simp add: firstError_None F_cfg F_sud)
  have c13: "(if subUidEntryList s' \<noteq> subGidEntryList s' then Some PgsFormatError else None) = None"
    by (simp add: F_sul F_sgl)
  have c14: "firstError (verifyStage2_subId (subGidMin s') (subGidMax s') (subGidCount s'))
      (subGidDict s') = None"
    using N' by (simp add: firstError_None F_cfg F_sgd)
  show ?thesis
    unfolding verifyStage2_def orElse_None
    by (intro conjI A B c3 D c5 c6 c7 c8 I J K' c12 c13 c14)
qed


theorem fixate_then_stage2_witness:
  "verifyStage1 db_www = None \<and> fst (fixate db_www) = None
   \<and> verifyStage2 (Some []) db_www = Some PgsFormatError
   \<and> verifyStage2 (Some []) (snd (fixate db_www)) = None"
proof -
  have st1: "verifyStage1 db_www = None" by code_simp
  have "fst (fixate db_www) = None" by code_simp
  then have fx: "fixate db_www = (None, snd (fixate db_www))" by (simp add: prod_eq_iff)
  have before: "verifyStage2 (Some []) db_www = Some PgsFormatError" by code_simp
  note defs = db_www_def db_member_def db_alice_def db_base_def mk_pwd_def mk_grp_def mk_sh_def
  have 1: "\<forall>u\<in>set (softwareUserList db_www). \<forall>p. map_of (pwdDict db_www) u = Some p
      \<longrightarrow> pw_uid p < uidMin db_www"
    by (simp add: defs)
  have 2: "\<forall>g\<in>set (softwareGroupList db_www). \<exists>e. map_of (grpDict db_www) g = Some e
      \<and> gr_gid e < gidMin db_www"
    by (simp add: defs)
  have 3: "\<forall>(u, glist)\<in>set (secondaryGroupsDict db_www).
        u \<noteq> ''root'' \<and> u \<in> set (systemUserList db_www @ normalUserList db_www @ softwareUserList db_www)
        \<longrightarrow> set glist \<inter> set (deprecatedGroupList db_www) = {}"
    by (simp add: defs)
  have 4: "0 < subUidCount db_www" "0 < subGidCount db_www" by (simp_all add: defs)
  have 5: "\<forall>it\<in>set (subUidDict db_www). fst it \<in> set (normalUserList db_www @ softwareUserList db_www)
        \<longrightarrow> verifyStage2_subId (subUidMin db_www) (subUidMax db_www) (subUidCount db_www) it = None"
    by (simp add: defs verifyStage2_subId_def)
  have 6: "\<forall>it\<in>set (subGidDict db_www). fst it \<in> set (normalUserList db_www @ softwareUserList db_www)
        \<longrightarrow> verifyStage2_subId (subGidMin db_www) (subGidMax db_www) (subGidCount db_www) it = None"
    by (simp add: defs verifyStage2_subId_def)
  from fixate_then_stage2 [OF st1 fx 1 2 3 4 5 6] st1 \<open>fst (fixate db_www) = None\<close> before
  show ?thesis by (intro conjI)
qed

text \<open>
  Claim C4 as stated fails on \<open>db_soft\<close>: it passes stage 1, \<open>_fixate\<close> raises nothing, and
  stage 2 still fails on the result, because the software user's uid is not below \<open>uidMin\<close>
  and \<open>_fixate\<close> changes no uid.
\<close>

theorem fixate_then_stage2_counterexample:
  "verifyStage1 db_soft = None \<and> fst (fixate db_soft) = None
   \<and> verifyStage2 (Some []) (snd (fixate db_soft)) = Some PgsFormatError"
  by code_simp

end
